theory Spec2Isabelle
  imports Complex_Main "HOL-Library.Sublist"
begin

section \<open>Data model\<close>

subsection \<open>Python strings\<close>

text \<open>
  A Python \<open>str\<close> is a sequence of Unicode code points; it is modelled as the list of
  their numbers, so that slicing, \<open>strip\<close>, \<open>lower\<close> and \<open>in\<close> see what Python sees.
  \<open>ascii\<close> embeds an ASCII literal. The substring test \<open>sub in s\<close> is \<^const>\<open>sublist\<close>
  (contiguous occurrence).
\<close>

type_synonym py_str = "nat list"

definition ascii :: "string \<Rightarrow> py_str" where
  "ascii s = map of_char s"

text \<open>
  \<open>str.isspace\<close> of one code point: the characters \<open>str.strip()\<close> removes.
\<close>

definition isspace :: "nat \<Rightarrow> bool" where
  "isspace c \<longleftrightarrow>
     (0x09 \<le> c \<and> c \<le> 0x0D) \<or> (0x1C \<le> c \<and> c \<le> 0x20) \<or> c = 0x85 \<or> c = 0xA0
     \<or> c = 0x1680 \<or> (0x2000 \<le> c \<and> c \<le> 0x200A) \<or> c = 0x2028 \<or> c = 0x2029
     \<or> c = 0x202F \<or> c = 0x205F \<or> c = 0x3000"

definition strip :: "py_str \<Rightarrow> py_str" where
  "strip s = rev (dropWhile isspace (rev (dropWhile isspace s)))"

text \<open>
  \<open>str.lower()\<close> maps the string code point by code point. An ASCII capital letter
  becomes the small one and any other ASCII character stays. For a code point from
  U+0080 on, the lower-case form (up to three code points) is that of the Unicode
  character database, a table outside the repository: it is the parameter \<open>ucd_lower\<close>
  of every function that lower-cases, and it is given the string and the position,
  since the form of U+03A3 depends on its neighbours.
\<close>

type_synonym case_table = "py_str \<Rightarrow> nat \<Rightarrow> py_str"

definition lower_cp :: "py_str \<Rightarrow> nat \<Rightarrow> py_str" where
  "lower_cp u c =
     (if 0x41 \<le> c \<and> c \<le> 0x5A then [c + 0x20]
      else if c < 0x80 then [c]
      else u)"

definition lower :: "case_table \<Rightarrow> py_str \<Rightarrow> py_str" where
  "lower ucd_lower s = concat (map (\<lambda>i. lower_cp (ucd_lower s i) (s ! i)) [0..<length s])"

text \<open>\<open>sep.join(parts)\<close>.\<close>

fun join :: "py_str \<Rightarrow> py_str list \<Rightarrow> py_str" where
  "join sep [] = []"
| "join sep [x] = x"
| "join sep (x # y # ys) = x @ sep @ join sep (y # ys)"

text \<open>A list slice \<open>xs[lo:hi]\<close> with \<open>0 \<le> lo\<close> and \<open>0 \<le> hi\<close> (Python clips it to the list).\<close>

definition slice :: "'a list \<Rightarrow> nat \<Rightarrow> nat \<Rightarrow> 'a list" where
  "slice xs lo hi = take (hi - lo) (drop lo xs)"

subsection \<open>Segments\<close>

text \<open>
  A segment is a dict with the keys \<open>start\<close>, \<open>end\<close>, \<open>text\<close> and, optionally,
  \<open>speaker\<close> (\<open>None\<close>: the key is absent). Times are Python floats; they are modelled
  by the real numbers they denote. Comparisons of floats are exact; an arithmetic
  operation rounds its exact result, and the rounding is the parameter \<open>fl\<close> of the
  functions that compute with floats.
\<close>

record segment =
  seg_start :: real
  seg_end :: real
  seg_text :: py_str
  seg_speaker :: "py_str option"

text \<open>\<open>not seg.get("text", "").strip()\<close>\<close>

definition blank :: "segment \<Rightarrow> bool" where
  "blank seg \<longleftrightarrow> strip (seg_text seg) = []"

subsection \<open>The language model\<close>

text \<open>
  \<open>chat_llm\<close> is the boundary to the external language model. Its callers see either
  a returned string (the empty string after its retries are exhausted) or an exception
  that escapes it. A prompt is a fixed template around the values listed here:
  the context and the text of the segment to correct; the two segments of a pair; the
  target language, the original text, the context and the basic translation; the target
  language, the context, the original text and the two translations to choose from. The
  model is an oracle: the answer may depend on the prompt and on which call of the
  stage it is (the \<open>nat\<close>), so that equal prompts may get different answers.
\<close>

datatype llm_outcome = Raised | Returned py_str

datatype prompt =
    CorrectionPrompt py_str py_str
  | MergePrompt segment segment
  | OptimizePrompt py_str py_str py_str py_str
  | SelectPrompt py_str py_str py_str py_str py_str

type_synonym llm = "nat \<Rightarrow> prompt \<Rightarrow> llm_outcome"

datatype py_error = IndexError | LLMError

section \<open>subtitles.py\<close>

subsection \<open>Integer conversions and formatting\<close>

text \<open>\<open>int(x)\<close> of a float truncates towards zero.\<close>

definition py_int :: "real \<Rightarrow> int" where
  "py_int x = (if 0 \<le> x then \<lfloor>x\<rfloor> else \<lceil>x\<rceil>)"

text \<open>\<open>round(x)\<close> of a float is the nearest integer, a tie going to the even one.\<close>

definition py_round :: "real \<Rightarrow> int" where
  "py_round x =
     (let f = \<lfloor>x\<rfloor>; r = x - of_int f
      in if r < 1/2 then f else if 1/2 < r then f + 1 else if even f then f else f + 1)"

fun digits :: "nat \<Rightarrow> string" where
  "digits n = (if n < 10 then [''0123456789'' ! n]
               else digits (n div 10) @ [''0123456789'' ! (n mod 10)])"

declare digits.simps [simp del]

definition zfill :: "nat \<Rightarrow> string \<Rightarrow> string" where
  "zfill width s = replicate (width - length s) (CHR ''0'') @ s"

text \<open>
  The format specification \<open>{v:0Wd}\<close>: decimal, padded with zeros to at least \<open>W\<close>
  characters, the sign counted. \<open>{v}\<close> is \<open>format_d 0 v\<close>.
\<close>

definition format_d :: "nat \<Rightarrow> int \<Rightarrow> string" where
  "format_d width v =
     (if v < 0 then CHR ''-'' # zfill (width - 1) (digits (nat (- v)))
      else zfill width (digits (nat v)))"

subsection \<open>format_timestamp and format_ass_timestamp\<close>

definition format_timestamp :: "(real \<Rightarrow> real) \<Rightarrow> real \<Rightarrow> string" where
  "format_timestamp fl seconds =
     (let total_seconds = py_int seconds;
          millis = py_round (fl (fl (seconds - of_int total_seconds) * 1000));
          hours = total_seconds div 3600;
          minutes = (total_seconds mod 3600) div 60;
          secs = total_seconds mod 60
      in format_d 2 hours @ '':'' @ format_d 2 minutes @ '':'' @ format_d 2 secs
         @ '','' @ format_d 3 millis)"

definition format_ass_timestamp :: "(real \<Rightarrow> real) \<Rightarrow> real \<Rightarrow> string" where
  "format_ass_timestamp fl seconds =
     (let total_seconds = py_int seconds;
          hours = total_seconds div 3600;
          minutes = (total_seconds mod 3600) div 60;
          secs = total_seconds mod 60;
          centiseconds = py_int (fl (fl (seconds - of_int total_seconds) * 100))
      in format_d 0 hours @ '':'' @ format_d 2 minutes @ '':'' @ format_d 2 secs
         @ ''.'' @ format_d 2 centiseconds)"

subsection \<open>group_overlapping_segments\<close>

text \<open>
  The loop state is \<open>(groups, current_group, current_end)\<close>, initially \<open>([], [], 0)\<close>;
  \<open>group_step\<close> is one iteration of \<open>for seg in segments\<close>.
\<close>

fun group_step :: "segment list list \<times> segment list \<times> real \<Rightarrow> segment
    \<Rightarrow> segment list list \<times> segment list \<times> real" where
  "group_step (groups, current_group, current_end) seg =
     (if current_group = [] then (groups, current_group @ [seg], seg_end seg)
      else if seg_start seg < current_end
        then (groups, current_group @ [seg], max current_end (seg_end seg))
        else (groups @ [current_group], [seg], seg_end seg))"

definition group_overlapping_segments :: "segment list \<Rightarrow> segment list list" where
  "group_overlapping_segments segments =
     (case foldl group_step ([], [], 0) segments of
        (groups, current_group, current_end) \<Rightarrow>
          if current_group \<noteq> [] then groups @ [current_group] else groups)"

section \<open>segmentation.py\<close>

subsection \<open>llm_correct_segments\<close>

text \<open>
  The texts joined into a context: \<open>[segments[j]["text"] for j in range(lo, hi) if
  segments[j].get("text", "").strip()]\<close>, for \<open>lo \<le> hi \<le> len(segments)\<close>.
\<close>

definition context_texts :: "segment list \<Rightarrow> nat \<Rightarrow> nat \<Rightarrow> py_str list" where
  "context_texts segments lo hi =
     map seg_text (filter (\<lambda>s. \<not> blank s) (slice segments lo hi))"

definition correction_context :: "segment list \<Rightarrow> nat \<Rightarrow> nat \<Rightarrow> py_str" where
  "correction_context segments context_range i =
     (let start_idx = max 0 (i - context_range);
          previous_context = context_texts segments start_idx i;
          end_idx = min (length segments) (i + context_range + 1);
          next_context = context_texts segments (i + 1) end_idx
      in (if previous_context \<noteq> []
            then ascii ''Previous context: '' @ join (ascii '' '') previous_context @ [0x0A]
            else [])
         @ (if next_context \<noteq> []
            then ascii ''Next context: '' @ join (ascii '' '') next_context @ [0x0A]
            else []))"

text \<open>
  One iteration of the loop over \<open>enumerate(segments)\<close>: the segment appended to
  \<open>corrected_segments\<close>, and the prompts passed to \<open>chat_llm\<close> in this iteration. The
  context range is a count (the caller leaves it at its default, 10).
\<close>

definition correct_segment :: "llm \<Rightarrow> segment list \<Rightarrow> nat \<Rightarrow> nat \<Rightarrow> segment \<times> prompt list" where
  "correct_segment llm segments context_range i =
     (let seg = segments ! i in
      if blank seg then (seg, [])
      else
        let p = CorrectionPrompt (correction_context segments context_range i) (seg_text seg);
            corrected_text = (case llm i p of Raised \<Rightarrow> seg_text seg | Returned t \<Rightarrow> t)
        in (seg\<lparr>seg_text := (if corrected_text \<noteq> [] then corrected_text else seg_text seg)\<rparr>,
            [p]))"

definition llm_correct_trace :: "llm \<Rightarrow> segment list \<Rightarrow> nat \<Rightarrow> (segment \<times> prompt list) list" where
  "llm_correct_trace llm segments context_range =
     map (correct_segment llm segments context_range) [0..<length segments]"

definition llm_correct_segments :: "llm \<Rightarrow> segment list \<Rightarrow> nat \<Rightarrow> segment list" where
  "llm_correct_segments llm segments context_range =
     (if segments = [] then segments
      else map fst (llm_correct_trace llm segments context_range))"

text \<open>The prompts \<open>llm_correct_segments\<close> passes to the language model, in order.\<close>

definition correction_prompts :: "llm \<Rightarrow> segment list \<Rightarrow> nat \<Rightarrow> prompt list" where
  "correction_prompts llm segments context_range =
     concat (map snd (llm_correct_trace llm segments context_range))"

subsection \<open>should_merge\<close>

text \<open>
  The answer of the \<open>k\<close>-th query of the merge stage decides; an exception anywhere in
  the \<open>try\<close> block gives \<open>False\<close>. U+4E0D is the negation marker of the source.
\<close>

definition should_merge :: "case_table \<Rightarrow> llm \<Rightarrow> nat \<Rightarrow> segment \<Rightarrow> segment \<Rightarrow> bool" where
  "should_merge ucd_lower llm k seg1 seg2 =
     (case llm k (MergePrompt seg1 seg2) of
        Raised \<Rightarrow> False
      | Returned answer \<Rightarrow>
          if answer \<noteq> [] \<and> (sublist (ascii ''not'') (lower ucd_lower answer) \<or> sublist [0x4E0D] answer)
          then False else True)"

subsection \<open>llm_merge_segments\<close>

text \<open>The segment stored at the cursor when a pair is merged.\<close>

definition merged_seg :: "segment \<Rightarrow> segment \<Rightarrow> segment" where
  "merged_seg seg1 seg2 =
     seg1\<lparr>seg_text := strip (seg_text seg1) @ ascii '' '' @ strip (seg_text seg2),
          seg_end := seg_end seg2\<rparr>"

text \<open>\<open>segments.pop(j)\<close> for \<open>j < len(segments)\<close>.\<close>

definition pop :: "'a list \<Rightarrow> nat \<Rightarrow> 'a list" where
  "pop xs j = take j xs @ drop (Suc j) xs"

text \<open>
  The state of the \<open>while\<close> loop is the list, the cursor \<open>i\<close> and the number \<open>k\<close> of
  queries made so far. \<open>merge_step\<close> is the loop body, run when \<open>i < len(segments) - 1\<close>.
\<close>

definition merge_step :: "case_table \<Rightarrow> (real \<Rightarrow> real) \<Rightarrow> llm \<Rightarrow> segment list \<times> nat \<times> nat
    \<Rightarrow> segment list \<times> nat \<times> nat" where
  "merge_step ucd_lower fl llm st =
     (case st of (segments, i, k) \<Rightarrow>
        let seg1 = segments ! i; seg2 = segments ! (i + 1) in
        if blank seg1 \<or> blank seg2 then (segments, i + 1, k)
        else if fl (seg_end seg2 - seg_start seg1) > 4 then (segments, i + 1, k)
        else if should_merge ucd_lower llm k seg1 seg2
          then (pop (segments[i := merged_seg seg1 seg2]) (i + 1), i, k + 1)
          else (segments, i + 1, k + 1))"

function merge_loop :: "case_table \<Rightarrow> (real \<Rightarrow> real) \<Rightarrow> llm \<Rightarrow> segment list \<Rightarrow> nat \<Rightarrow> nat \<Rightarrow> segment list" where
  "merge_loop ucd_lower fl llm segments i k =
     (if i + 1 < length segments
      then (case merge_step ucd_lower fl llm (segments, i, k) of
              (segments', i', k') \<Rightarrow> merge_loop ucd_lower fl llm segments' i' k')
      else segments)"
  by pat_completeness auto
termination
  by (relation "measure (\<lambda>(ucd_lower, fl, llm, segments, i, k). 2 * length segments - i)")
     (auto simp: merge_step_def pop_def Let_def split: if_splits)

declare merge_loop.simps [simp del]

definition llm_merge_segments :: "case_table \<Rightarrow> (real \<Rightarrow> real) \<Rightarrow> llm \<Rightarrow> segment list \<Rightarrow> segment list" where
  "llm_merge_segments ucd_lower fl llm segments =
     (if segments = [] then segments else merge_loop ucd_lower fl llm segments 0 0)"

section \<open>translation.py\<close>

subsection \<open>basic_translate_segments\<close>

text \<open>
  \<open>translate_func\<close> is the external translator. One call either raises or returns; a
  synchronous translator may return \<open>bytes\<close>, given here by their UTF-8 decoding
  (\<open>None\<close>: \<open>decode\<close> raises). The translator is an oracle: the outcome of a call may
  depend on the segment's index, on how many calls were made for that segment before,
  and on the text. This covers every interleaving of the concurrent tasks of the
  asynchronous mode; source and target language are fixed for a run of the stage.
\<close>

datatype async_outcome = AsyncRaises | AsyncReturns py_str

datatype sync_outcome = SyncRaises | SyncStr py_str | SyncBytes "py_str option"

datatype translate_func =
    AsyncFn "nat \<Rightarrow> nat \<Rightarrow> py_str \<Rightarrow> async_outcome"
  | SyncFn "nat \<Rightarrow> nat \<Rightarrow> py_str \<Rightarrow> sync_outcome"

text \<open>
  What one segment's translation does: the text it yields, the texts passed to
  \<open>translate_func\<close> (one per call, in order) and the sleeps, in seconds.
\<close>

record translate_trace =
  tr_result :: py_str
  tr_calls :: "py_str list"
  tr_sleeps :: "nat list"

definition max_attempts :: nat where
  "max_attempts = 5"

definition delay :: nat where
  "delay = 1"

text \<open>
  \<open>sem_translate\<close>, the task of the asynchronous mode. \<open>attempt\<close> counts the failed
  calls; the sleep after a failure uses the incremented counter.
\<close>

function sem_translate_loop :: "(nat \<Rightarrow> py_str \<Rightarrow> async_outcome) \<Rightarrow> py_str \<Rightarrow> nat
    \<Rightarrow> py_str list \<Rightarrow> nat list \<Rightarrow> translate_trace" where
  "sem_translate_loop translate_func text attempt calls sleeps =
     (if attempt < max_attempts
      then (case translate_func attempt text of
              AsyncReturns r \<Rightarrow>
                \<lparr>tr_result = r, tr_calls = calls @ [text], tr_sleeps = sleeps\<rparr>
            | AsyncRaises \<Rightarrow>
                let attempt' = attempt + 1 in
                sem_translate_loop translate_func text attempt' (calls @ [text])
                  (sleeps @ [delay * 2 ^ (attempt' - 1)]))
      else \<lparr>tr_result = text, tr_calls = calls, tr_sleeps = sleeps\<rparr>)"
  by pat_completeness auto
termination
  by (relation "measure (\<lambda>(translate_func, text, attempt, calls, sleeps). max_attempts - attempt)")
     auto

declare sem_translate_loop.simps [simp del]

definition sem_translate :: "(nat \<Rightarrow> py_str \<Rightarrow> async_outcome) \<Rightarrow> py_str \<Rightarrow> translate_trace" where
  "sem_translate translate_func text = sem_translate_loop translate_func text 0 [] []"

text \<open>
  The retry loop of the synchronous mode for one segment. A call that raises, or whose
  bytes do not decode, counts as a failure; the last failure stores the original text,
  which is what the loop leaves in \<open>basic_trans\<close> when it ends without \<open>break\<close>.
\<close>

function sync_translate_loop :: "(nat \<Rightarrow> py_str \<Rightarrow> sync_outcome) \<Rightarrow> py_str \<Rightarrow> nat
    \<Rightarrow> py_str list \<Rightarrow> nat list \<Rightarrow> translate_trace" where
  "sync_translate_loop translate_func original attempts calls sleeps =
     (if attempts < max_attempts
      then (case translate_func attempts original of
              SyncStr r \<Rightarrow>
                \<lparr>tr_result = r, tr_calls = calls @ [original], tr_sleeps = sleeps\<rparr>
            | SyncBytes (Some r) \<Rightarrow>
                \<lparr>tr_result = r, tr_calls = calls @ [original], tr_sleeps = sleeps\<rparr>
            | _ \<Rightarrow>
                let attempts' = attempts + 1 in
                sync_translate_loop translate_func original attempts' (calls @ [original])
                  (if attempts' < max_attempts then sleeps @ [1] else sleeps))
      else \<lparr>tr_result = original, tr_calls = calls, tr_sleeps = sleeps\<rparr>)"
  by pat_completeness auto
termination
  by (relation "measure (\<lambda>(translate_func, original, attempts, calls, sleeps). max_attempts - attempts)")
     auto

declare sync_translate_loop.simps [simp del]

definition sync_translate :: "(nat \<Rightarrow> py_str \<Rightarrow> sync_outcome) \<Rightarrow> py_str \<Rightarrow> translate_trace" where
  "sync_translate translate_func original = sync_translate_loop translate_func original 0 [] []"

text \<open>
  The stage: one task per segment, in the asynchronous mode gathered in the order of
  the segments, in the synchronous mode run one after the other.
\<close>

definition basic_translate_traces :: "translate_func \<Rightarrow> segment list \<Rightarrow> translate_trace list" where
  "basic_translate_traces translate_func segments =
     (case translate_func of
        AsyncFn f \<Rightarrow> map (\<lambda>i. sem_translate (f i) (seg_text (segments ! i))) [0..<length segments]
      | SyncFn f \<Rightarrow> map (\<lambda>i. sync_translate (f i) (seg_text (segments ! i))) [0..<length segments])"

definition basic_translate_segments :: "translate_func \<Rightarrow> segment list \<Rightarrow> py_str list" where
  "basic_translate_segments translate_func segments =
     map tr_result (basic_translate_traces translate_func segments)"

subsection \<open>select_best_translation and optimize_translation\<close>

text \<open>
  \<open>int(s)\<close> on a string is a parameter \<open>parse_int\<close> of the model (\<open>None\<close>: \<open>ValueError\<close>).
  An exception that escapes \<open>chat_llm\<close> is not caught by either function.
\<close>

definition select_best_translation :: "llm \<Rightarrow> (py_str \<Rightarrow> int option) \<Rightarrow> nat \<Rightarrow> py_str \<Rightarrow> py_str
    \<Rightarrow> py_str \<Rightarrow> py_str \<Rightarrow> py_str \<Rightarrow> py_error + py_str" where
  "select_best_translation llm parse_int i context_text original basic_translation
       optimized_translation dest_language =
     (case llm i (SelectPrompt dest_language context_text original basic_translation
                    optimized_translation) of
        Raised \<Rightarrow> Inl LLMError
      | Returned response \<Rightarrow>
          (case parse_int (strip response) of
             Some choice \<Rightarrow> Inr (if choice = 0 then basic_translation else optimized_translation)
           | None \<Rightarrow> Inr basic_translation))"

definition optimize_translation :: "llm \<Rightarrow> nat \<Rightarrow> py_str \<Rightarrow> py_str \<Rightarrow> py_str \<Rightarrow> py_str
    \<Rightarrow> py_error + py_str" where
  "optimize_translation llm i original basic_translation context_text dest_language =
     (case llm i (OptimizePrompt dest_language original context_text basic_translation) of
        Raised \<Rightarrow> Inl LLMError
      | Returned optimized_translation \<Rightarrow>
          Inr (if optimized_translation \<noteq> [] then optimized_translation else basic_translation))"

subsection \<open>optimize_translations_with_context\<close>

text \<open>
  The context of segment \<open>i\<close>, from the current content of \<open>basic_translations\<close>.
  U+524D U+6587 and U+540E U+6587 are the two labels of the source.
\<close>

definition context_text_of :: "py_str list \<Rightarrow> nat \<Rightarrow> nat \<Rightarrow> nat \<Rightarrow> py_str" where
  "context_text_of basic_translations n context_range i =
     (let context_parts =
            (if i > 0
             then [[0x524D, 0x6587] @ ascii '': ''
                     @ join [0x0A] (slice basic_translations (max 0 (i - context_range)) i)]
             else [])
            @ (if i + 1 < n
               then [[0x540E, 0x6587] @ ascii '': ''
                       @ join [0x0A] (slice basic_translations (i + 1) (min n (i + context_range + 1)))]
               else [])
      in join [0x0A] context_parts)"

text \<open>
  The loop state: the list \<open>basic_translations\<close>, which the loop overwrites,
  \<open>final_segments\<close>, and the context text computed in each iteration so far.
\<close>

record opt_state =
  basic_translations :: "py_str list"
  final_segments :: "segment list"
  contexts :: "py_str list"

definition optimize_step :: "llm \<Rightarrow> (py_str \<Rightarrow> int option) \<Rightarrow> segment list \<Rightarrow> bool \<Rightarrow> nat
    \<Rightarrow> py_str \<Rightarrow> nat \<Rightarrow> opt_state \<Rightarrow> py_error + opt_state" where
  "optimize_step llm parse_int segments use_llm context_range dest_language i st =
     (let seg = segments ! i; original = seg_text seg in
      if length (basic_translations st) \<le> i then Inl IndexError
      else
        let basic_trans = basic_translations st ! i;
            context_text = context_text_of (basic_translations st) (length segments) context_range i;
            emit = (\<lambda>bts optimized_trans. Inr
              \<lparr>basic_translations = bts,
               final_segments = final_segments st @
                 [\<lparr>seg_start = seg_start seg, seg_end = seg_end seg, seg_text = optimized_trans,
                   seg_speaker = Some (case seg_speaker seg of None \<Rightarrow> [] | Some s \<Rightarrow> s)\<rparr>],
               contexts = contexts st @ [context_text]\<rparr>)
        in
        if use_llm then
          (case optimize_translation llm i original basic_trans context_text dest_language of
             Inl e \<Rightarrow> Inl e
           | Inr optimized_trans \<Rightarrow>
               if basic_trans \<noteq> optimized_trans then
                 (case select_best_translation llm parse_int i context_text original basic_trans
                         optimized_trans dest_language of
                    Inl e \<Rightarrow> Inl e
                  | Inr chosen \<Rightarrow> emit ((basic_translations st)[i := chosen]) chosen)
               else emit ((basic_translations st)[i := optimized_trans]) optimized_trans)
        else emit (basic_translations st) basic_trans)"

text \<open>\<open>for i in range(len(segments))\<close>, stopped by the first exception.\<close>

fun optimize_loop :: "(nat \<Rightarrow> opt_state \<Rightarrow> py_error + opt_state) \<Rightarrow> nat list \<Rightarrow> opt_state
    \<Rightarrow> py_error + opt_state" where
  "optimize_loop body [] st = Inr st"
| "optimize_loop body (i # is) st =
     (case body i st of Inl e \<Rightarrow> Inl e | Inr st' \<Rightarrow> optimize_loop body is st')"

definition optimize_run :: "llm \<Rightarrow> (py_str \<Rightarrow> int option) \<Rightarrow> segment list \<Rightarrow> py_str list \<Rightarrow> bool
    \<Rightarrow> nat \<Rightarrow> py_str \<Rightarrow> py_error + opt_state" where
  "optimize_run llm parse_int segments basic_translations0 use_llm context_range dest_language =
     optimize_loop (optimize_step llm parse_int segments use_llm context_range dest_language)
       [0..<length segments]
       \<lparr>basic_translations = basic_translations0, final_segments = [], contexts = []\<rparr>"

definition optimize_translations_with_context :: "llm \<Rightarrow> (py_str \<Rightarrow> int option) \<Rightarrow> segment list
    \<Rightarrow> py_str list \<Rightarrow> bool \<Rightarrow> nat \<Rightarrow> py_str \<Rightarrow> py_error + segment list" where
  "optimize_translations_with_context llm parse_int segments basic_translations0 use_llm
       context_range dest_language =
     map_sum id final_segments
       (optimize_run llm parse_int segments basic_translations0 use_llm context_range dest_language)"

section \<open>utils.py\<close>

text \<open>
  The two dict literals \<open>mapping\<close>, as association lists in the order of the source
  (no key occurs twice), and \<open>mapping.get(lang, lang)\<close> after \<open>lang.lower().strip()\<close>.
\<close>

definition google_mapping :: "(py_str \<times> py_str) list" where
  "google_mapping = map (\<lambda>(k, v). (ascii k, ascii v))
     [(''arabic'', ''ar''), (''ar'', ''ar''), (''czech'', ''cs''), (''cs'', ''cs''),
      (''danish'', ''da''), (''da'', ''da''), (''dutch'', ''nl''), (''nl'', ''nl''),
      (''english'', ''en''), (''en'', ''en''), (''finnish'', ''fi''), (''fi'', ''fi''),
      (''french'', ''fr''), (''fr'', ''fr''), (''german'', ''de''), (''de'', ''de''),
      (''greek'', ''el''), (''el'', ''el''), (''hebrew'', ''iw''), (''iw'', ''iw''),
      (''hindi'', ''hi''), (''hi'', ''hi''), (''hungarian'', ''hu''), (''hu'', ''hu''),
      (''indonesian'', ''id''), (''id'', ''id''), (''italian'', ''it''), (''it'', ''it''),
      (''japanese'', ''ja''), (''ja'', ''ja''), (''korean'', ''ko''), (''ko'', ''ko''),
      (''norwegian'', ''no''), (''no'', ''no''), (''polish'', ''pl''), (''pl'', ''pl''),
      (''portuguese'', ''pt''), (''pt'', ''pt''), (''romanian'', ''ro''), (''ro'', ''ro''),
      (''russian'', ''ru''), (''ru'', ''ru''), (''slovak'', ''sk''), (''sk'', ''sk''),
      (''spanish'', ''es''), (''es'', ''es''), (''swedish'', ''sv''), (''sv'', ''sv''),
      (''thai'', ''th''), (''th'', ''th''), (''turkish'', ''tr''), (''tr'', ''tr''),
      (''ukrainian'', ''uk''), (''uk'', ''uk''), (''vietnamese'', ''vi''),
      (''vi'', ''vi''), (''chinese'', ''zh-cn''), (''zh'', ''zh-cn''),
      (''zh-cn'', ''zh-cn''), (''zh_tw'', ''zh-tw''), (''taiwanese'', ''zh-tw'')]"

definition api_mapping :: "(py_str \<times> py_str) list" where
  "api_mapping = map (\<lambda>(k, v). (ascii k, ascii v))
     [(''arabic'', ''ar''), (''ar'', ''ar''), (''czech'', ''cs''), (''cs'', ''cs''),
      (''danish'', ''da''), (''da'', ''da''), (''dutch'', ''nl''), (''nl'', ''nl''),
      (''english'', ''en''), (''en'', ''en''), (''finnish'', ''fi''), (''fi'', ''fi''),
      (''french'', ''fr''), (''fr'', ''fr''), (''german'', ''de''), (''de'', ''de''),
      (''greek'', ''el''), (''el'', ''el''), (''hebrew'', ''he''), (''he'', ''he''),
      (''hindi'', ''hi''), (''hi'', ''hi''), (''hungarian'', ''hu''), (''hu'', ''hu''),
      (''indonesian'', ''id''), (''id'', ''id''), (''italian'', ''it''), (''it'', ''it''),
      (''japanese'', ''ja''), (''ja'', ''ja''), (''korean'', ''ko''), (''ko'', ''ko''),
      (''norwegian'', ''no''), (''no'', ''no''), (''polish'', ''pl''), (''pl'', ''pl''),
      (''portuguese'', ''pt''), (''pt'', ''pt''), (''romanian'', ''ro''), (''ro'', ''ro''),
      (''russian'', ''ru''), (''ru'', ''ru''), (''slovak'', ''sk''), (''sk'', ''sk''),
      (''spanish'', ''es''), (''es'', ''es''), (''swedish'', ''sv''), (''sv'', ''sv''),
      (''thai'', ''th''), (''th'', ''th''), (''turkish'', ''tr''), (''tr'', ''tr''),
      (''ukrainian'', ''uk''), (''uk'', ''uk''), (''vietnamese'', ''vi''),
      (''vi'', ''vi''), (''chinese'', ''zh''), (''zh'', ''zh''), (''zh-cn'', ''zh''),
      (''zh_tw'', ''zh-tw''), (''taiwanese'', ''zh-tw'')]"

definition dict_get :: "('k \<times> 'v) list \<Rightarrow> 'k \<Rightarrow> 'v \<Rightarrow> 'v" where
  "dict_get mapping key dflt = (case map_of mapping key of Some v \<Rightarrow> v | None \<Rightarrow> dflt)"

definition normalize_language_code_for_google :: "case_table \<Rightarrow> py_str \<Rightarrow> py_str" where
  "normalize_language_code_for_google ucd_lower lang0 =
     (let lang = strip (lower ucd_lower lang0) in dict_get google_mapping lang lang)"

definition normalize_language_code_for_api :: "case_table \<Rightarrow> py_str \<Rightarrow> py_str" where
  "normalize_language_code_for_api ucd_lower lang0 =
     (let lang = strip (lower ucd_lower lang0) in dict_get api_mapping lang lang)"

section \<open>Stand-ins for the external capabilities\<close>

text \<open>
  Concrete capabilities for the examples: a case table that maps no code point (the
  examples are ASCII, for which the table is not consulted), float arithmetic without
  rounding error, a language model that gives the same outcome to every call, a
  translator that raises on every call, and one that returns its input.
\<close>

definition no_table :: case_table where
  "no_table s i = [s ! i]"

definition exact :: "real \<Rightarrow> real" where
  "exact x = x"

definition llm_always :: "llm_outcome \<Rightarrow> llm" where
  "llm_always outcome k p = outcome"

definition async_raising :: "nat \<Rightarrow> nat \<Rightarrow> py_str \<Rightarrow> async_outcome" where
  "async_raising i attempt t = AsyncRaises"

definition async_echo :: "nat \<Rightarrow> nat \<Rightarrow> py_str \<Rightarrow> async_outcome" where
  "async_echo i attempt t = AsyncReturns t"

definition sync_raising :: "nat \<Rightarrow> nat \<Rightarrow> py_str \<Rightarrow> sync_outcome" where
  "sync_raising i attempt t = SyncRaises"

definition sync_echo :: "nat \<Rightarrow> nat \<Rightarrow> py_str \<Rightarrow> sync_outcome" where
  "sync_echo i attempt t = SyncStr t"

text \<open>
  A stand-in for \<open>int\<close> that reads the two answers asked for, and a language model that
  answers every optimisation prompt with \<open>OPT\<close> and every arbitration prompt with \<open>1\<close>.
\<close>

definition parse_choice :: "py_str \<Rightarrow> int option" where
  "parse_choice s = (if s = ascii ''0'' then Some 0 else if s = ascii ''1'' then Some 1 else None)"

definition llm_sentinel :: llm where
  "llm_sentinel k p =
     (case p of
        OptimizePrompt dest original ctx basic \<Rightarrow> Returned (ascii ''OPT'')
      | SelectPrompt dest ctx original basic optimized \<Rightarrow> Returned (ascii ''1'')
      | _ \<Rightarrow> Returned [])"

text \<open>
  A language model that raises when its call number 1 is asked to optimise the empty
  text, and returns the empty string to every other call.
\<close>

definition llm_trap :: llm where
  "llm_trap k p =
     (case p of
        OptimizePrompt dest original ctx basic \<Rightarrow>
          if k = 1 \<and> original = [] then Raised else Returned []
      | _ \<Rightarrow> Returned [])"

text \<open>The segments of the examples.\<close>

definition seg_hello :: segment where
  "seg_hello = \<lparr>seg_start = 0, seg_end = 2, seg_text = ascii ''hello'', seg_speaker = None\<rparr>"

definition seg_world :: segment where
  "seg_world = \<lparr>seg_start = 2, seg_end = 3, seg_text = ascii ''world'', seg_speaker = None\<rparr>"

definition seg_silence :: segment where
  "seg_silence = \<lparr>seg_start = 3, seg_end = 4, seg_text = [], seg_speaker = None\<rparr>"

definition seg_a :: segment where
  "seg_a = \<lparr>seg_start = 0, seg_end = 1, seg_text = ascii '' a'', seg_speaker = None\<rparr>"

definition seg_b :: segment where
  "seg_b = \<lparr>seg_start = 1, seg_end = 2, seg_text = ascii ''b '', seg_speaker = None\<rparr>"

section \<open>Grouping is a partition\<close>

lemma group_loop_concat:
  "foldl group_step (groups, cur, e) segs = (groups', cur', e')
   \<Longrightarrow> concat groups' @ cur' = concat groups @ cur @ segs"
proof (induction segs arbitrary: groups cur e)
  case Nil
  then show ?case by simp
next
  case (Cons s segs)
  then show ?case by (auto split: if_splits)
qed

text \<open>
  C10. Concatenating the groups returned by \<open>group_overlapping_segments\<close>, in order,
  gives back the input list: every segment occurs exactly once, at its original place.
\<close>

theorem group_overlapping_segments_partition:
  "concat (group_overlapping_segments segments) = segments"
proof -
  obtain groups cur e where f: "foldl group_step ([], [], 0) segments = (groups, cur, e)"
    by (cases "foldl group_step ([], [], 0) segments") auto
  from group_loop_concat [OF f] have "concat groups @ cur = segments" by simp
  with f show ?thesis by (auto simp: group_overlapping_segments_def)
qed

section \<open>Timestamps\<close>

lemma py_round_near:
  assumes "of_int n - 1/2 < x" and "x < of_int n + 1/2"
  shows "py_round x = n"
proof (cases "x < of_int n")
  case True
  with assms have "\<lfloor>x\<rfloor> = n - 1" by (intro floor_unique) auto
  with assms True show ?thesis by (simp add: py_round_def Let_def)
next
  case False
  with assms have "\<lfloor>x\<rfloor> = n" by (intro floor_unique) auto
  with assms False show ?thesis by (simp add: py_round_def Let_def)
qed

lemma py_int_between:
  assumes "0 \<le> n" and "of_int n \<le> x" and "x < of_int n + 1"
  shows "py_int x = n"
proof -
  from assms have "\<lfloor>x\<rfloor> = n" by (intro floor_unique) auto
  moreover from assms have "0 \<le> x" by linarith
  ultimately show ?thesis by (simp add: py_int_def)
qed

text \<open>
  The rounding of a float operation is known by its relative error only: at most
  \<open>2\<^sup>-\<^sup>5\<^sup>3\<close> of the exact result for IEEE doubles rounded to nearest, which is required
  here on the range \<open>[1/4, 1024]\<close> that the examples stay in.
\<close>

lemma fl_close:
  fixes fl :: "real \<Rightarrow> real" and x :: real
  assumes fl: "\<forall>x. 1/4 \<le> \<bar>x\<bar> \<and> \<bar>x\<bar> \<le> 1024 \<longrightarrow> \<bar>fl x - x\<bar> \<le> \<bar>x\<bar> / 2^53"
    and lo: "1/4 \<le> x" and hi: "x \<le> 1024"
  shows "\<bar>fl x - x\<bar> \<le> 1 / 1000000000"
proof -
  from lo hi have ax: "1/4 \<le> \<bar>x\<bar> \<and> \<bar>x\<bar> \<le> 1024" by simp
  with fl have "\<bar>fl x - x\<bar> \<le> \<bar>x\<bar> / 2^53" by blast
  also from ax have "\<bar>x\<bar> / 2^53 \<le> 1024 / 2^53" by (simp add: divide_right_mono)
  also have "(1024::real) / 2^53 \<le> 1 / 1000000000" by simp
  finally show ?thesis .
qed

lemma format_d_examples:
  "format_d 2 0 = ''00''" "format_d 0 0 = ''0''" "format_d 2 2 = ''02''" "format_d 2 5 = ''05''"
  "format_d 3 457 = ''457''" "format_d 2 45 = ''45''" "format_d 3 1000 = ''1000''"
  by (simp_all add: format_d_def zfill_def digits.simps)

lemma py_round_tie: "py_round (of_int n + 1/2) = (if even n then n else n + 1)"
proof -
  have "\<lfloor>of_int n + (1/2::real)\<rfloor> = n" by (intro floor_unique) auto
  then show ?thesis by (simp add: py_round_def Let_def)
qed

lemma py_int_nonneg: "0 \<le> x \<Longrightarrow> py_int x = \<lfloor>x\<rfloor>"
  by (simp add: py_int_def)

lemma timestamps_125_4567:
  fixes fl :: "real \<Rightarrow> real"
  assumes fl: "\<forall>x. 1/4 \<le> \<bar>x\<bar> \<and> \<bar>x\<bar> \<le> 1024 \<longrightarrow> \<bar>fl x - x\<bar> \<le> \<bar>x\<bar> / 2^53"
  shows "format_timestamp fl (fl (1254567/10000)) = ''00:02:05,457''
       \<and> format_ass_timestamp fl (fl (1254567/10000)) = ''0:02:05.45''"
proof -
  define a where "a = fl (1254567/10000)"
  define d where "d = fl (a - 125)"
  define m where "m = fl (d * 1000)"
  define c where "c = fl (d * 100)"
  have a: "\<bar>a - 1254567/10000\<bar> \<le> 1 / 1000000000"
    unfolding a_def by (rule fl_close [OF fl]) simp_all
  have a1: "125 \<le> a" and a2: "a < 126" using a by linarith+
  have ti: "py_int a = 125" using a1 a2 py_int_between [of 125 a] by simp
  have d0: "1/4 \<le> a - 125" "a - 125 \<le> 1024" using a by linarith+
  have d: "\<bar>d - (a - 125)\<bar> \<le> 1 / 1000000000"
    unfolding d_def by (rule fl_close [OF fl d0])
  have m0: "1/4 \<le> d * 1000" "d * 1000 \<le> 1024" using a d by linarith+
  have m: "\<bar>m - d * 1000\<bar> \<le> 1 / 1000000000"
    unfolding m_def by (rule fl_close [OF fl m0])
  have "457 - 1/2 < m" "m < 457 + 1/2" using a d m by linarith+
  then have millis: "py_round m = 457" using py_round_near [of 457 m] by simp
  have c0: "1/4 \<le> d * 100" "d * 100 \<le> 1024" using a d by linarith+
  have c: "\<bar>c - d * 100\<bar> \<le> 1 / 1000000000"
    unfolding c_def by (rule fl_close [OF fl c0])
  have "45 \<le> c" "c < 46" using a d c by linarith+
  then have centis: "py_int c = 45" using py_int_between [of 45 c] by simp
  have srt: "format_timestamp fl a = ''00:02:05,457''"
    using ti millis
    by (simp add: format_timestamp_def Let_def d_def [symmetric] m_def [symmetric]
        format_d_examples)
  have ass: "format_ass_timestamp fl a = ''0:02:05.45''"
    using ti centis
    by (simp add: format_ass_timestamp_def Let_def d_def [symmetric] c_def [symmetric]
        format_d_examples)
  from srt ass show ?thesis by (simp add: a_def)
qed

text \<open>
  C7. For non-negative seconds the SRT formatter rounds and the ASS formatter
  truncates. Let \<open>x\<close> be the fraction of the second scaled by 1000, as the float
  operations give it: when \<open>x\<close> is less than 1/2 away from the integer \<open>n\<close>, the
  millisecond field is \<open>n\<close>, and when \<open>x\<close> is \<open>n + 1/2\<close>, it is the even one of \<open>n\<close> and
  \<open>n + 1\<close>. Let \<open>y\<close> be the fraction scaled by 100: when \<open>c \<le> y < c + 1\<close> for a
  non-negative integer \<open>c\<close>, the centisecond field is \<open>c\<close>. The other fields are the
  hours, minutes and seconds of the whole seconds. The float nearest to 125.4567 is
  formatted as \<open>00:02:05,457\<close> by the SRT formatter and as \<open>0:02:05.45\<close> by the ASS
  formatter, whatever the rounding errors of the float operations are within the bound
  of IEEE double arithmetic.
\<close>

theorem srt_rounds_ass_truncates:
  fixes fl :: "real \<Rightarrow> real" and seconds :: real and n m c :: int
  assumes "0 \<le> seconds"
  shows "(of_int n - 1/2 < fl (fl (seconds - of_int \<lfloor>seconds\<rfloor>) * 1000)
          \<and> fl (fl (seconds - of_int \<lfloor>seconds\<rfloor>) * 1000) < of_int n + 1/2
        \<longrightarrow> format_timestamp fl seconds =
              format_d 2 (\<lfloor>seconds\<rfloor> div 3600) @ '':''
              @ format_d 2 (\<lfloor>seconds\<rfloor> mod 3600 div 60) @ '':''
              @ format_d 2 (\<lfloor>seconds\<rfloor> mod 60) @ '','' @ format_d 3 n)
    \<and> (fl (fl (seconds - of_int \<lfloor>seconds\<rfloor>) * 1000) = of_int m + 1/2
        \<longrightarrow> format_timestamp fl seconds =
              format_d 2 (\<lfloor>seconds\<rfloor> div 3600) @ '':''
              @ format_d 2 (\<lfloor>seconds\<rfloor> mod 3600 div 60) @ '':''
              @ format_d 2 (\<lfloor>seconds\<rfloor> mod 60) @ '','' @ format_d 3 (if even m then m else m + 1))
    \<and> (0 \<le> c \<and> of_int c \<le> fl (fl (seconds - of_int \<lfloor>seconds\<rfloor>) * 100)
          \<and> fl (fl (seconds - of_int \<lfloor>seconds\<rfloor>) * 100) < of_int c + 1
        \<longrightarrow> format_ass_timestamp fl seconds =
              format_d 0 (\<lfloor>seconds\<rfloor> div 3600) @ '':''
              @ format_d 2 (\<lfloor>seconds\<rfloor> mod 3600 div 60) @ '':''
              @ format_d 2 (\<lfloor>seconds\<rfloor> mod 60) @ ''.'' @ format_d 2 c)
    \<and> ((\<forall>x. 1/4 \<le> \<bar>x\<bar> \<and> \<bar>x\<bar> \<le> 1024 \<longrightarrow> \<bar>fl x - x\<bar> \<le> \<bar>x\<bar> / 2^53)
        \<longrightarrow> format_timestamp fl (fl (1254567/10000)) = ''00:02:05,457''
          \<and> format_ass_timestamp fl (fl (1254567/10000)) = ''0:02:05.45'')"
proof (intro conjI impI)
  assume "of_int n - 1/2 < fl (fl (seconds - of_int \<lfloor>seconds\<rfloor>) * 1000)
          \<and> fl (fl (seconds - of_int \<lfloor>seconds\<rfloor>) * 1000) < of_int n + 1/2"
  then have "py_round (fl (fl (seconds - of_int \<lfloor>seconds\<rfloor>) * 1000)) = n"
    by (intro py_round_near) simp_all
  with assms show "format_timestamp fl seconds =
              format_d 2 (\<lfloor>seconds\<rfloor> div 3600) @ '':''
              @ format_d 2 (\<lfloor>seconds\<rfloor> mod 3600 div 60) @ '':''
              @ format_d 2 (\<lfloor>seconds\<rfloor> mod 60) @ '','' @ format_d 3 n"
    by (simp add: format_timestamp_def Let_def py_int_nonneg)
next
  assume "fl (fl (seconds - of_int \<lfloor>seconds\<rfloor>) * 1000) = of_int m + 1/2"
  then have "py_round (fl (fl (seconds - of_int \<lfloor>seconds\<rfloor>) * 1000))
      = (if even m then m else m + 1)"
    by (simp only: py_round_tie)
  with assms show "format_timestamp fl seconds =
              format_d 2 (\<lfloor>seconds\<rfloor> div 3600) @ '':''
              @ format_d 2 (\<lfloor>seconds\<rfloor> mod 3600 div 60) @ '':''
              @ format_d 2 (\<lfloor>seconds\<rfloor> mod 60) @ '','' @ format_d 3 (if even m then m else m + 1)"
    by (simp add: format_timestamp_def Let_def py_int_nonneg)
next
  assume "0 \<le> c \<and> of_int c \<le> fl (fl (seconds - of_int \<lfloor>seconds\<rfloor>) * 100)
          \<and> fl (fl (seconds - of_int \<lfloor>seconds\<rfloor>) * 100) < of_int c + 1"
  then have "py_int (fl (fl (seconds - of_int \<lfloor>seconds\<rfloor>) * 100)) = c"
    by (intro py_int_between) simp_all
  with assms show "format_ass_timestamp fl seconds =
              format_d 0 (\<lfloor>seconds\<rfloor> div 3600) @ '':''
              @ format_d 2 (\<lfloor>seconds\<rfloor> mod 3600 div 60) @ '':''
              @ format_d 2 (\<lfloor>seconds\<rfloor> mod 60) @ ''.'' @ format_d 2 c"
    by (simp add: format_ass_timestamp_def Let_def py_int_nonneg)
next
  assume fl: "\<forall>x. 1/4 \<le> \<bar>x\<bar> \<and> \<bar>x\<bar> \<le> 1024 \<longrightarrow> \<bar>fl x - x\<bar> \<le> \<bar>x\<bar> / 2^53"
  from timestamps_125_4567 [OF fl]
  show "format_timestamp fl (fl (1254567/10000)) = ''00:02:05,457''" by simp
  from timestamps_125_4567 [OF fl]
  show "format_ass_timestamp fl (fl (1254567/10000)) = ''0:02:05.45''" by simp
qed

theorem srt_rounds_ass_truncates_witness:
  "(0::real) \<le> 1254567/10000
   \<and> format_timestamp exact (1254567/10000) = ''00:02:05,457''
   \<and> format_ass_timestamp exact (1254567/10000) = ''0:02:05.45''
   \<and> format_timestamp exact (1/16) = ''00:00:00,062''
   \<and> format_timestamp exact (exact (1254567/10000)) = ''00:02:05,457''
   \<and> format_ass_timestamp exact (exact (1254567/10000)) = ''0:02:05.45''"
proof -
  have fl: "\<forall>x::real. 1/4 \<le> \<bar>x\<bar> \<and> \<bar>x\<bar> \<le> 1024 \<longrightarrow> \<bar>exact x - x\<bar> \<le> \<bar>x\<bar> / 2^53"
    by (simp add: exact_def)
  have nonneg: "(0::real) \<le> 1254567/10000" by simp
  have fields: "format_d 2 (\<lfloor>1254567/10000::real\<rfloor> div 3600) = ''00''"
      "format_d 0 (\<lfloor>1254567/10000::real\<rfloor> div 3600) = ''0''"
      "format_d 2 (\<lfloor>1254567/10000::real\<rfloor> mod 3600 div 60) = ''02''"
      "format_d 2 (\<lfloor>1254567/10000::real\<rfloor> mod 60) = ''05''"
    by (simp_all add: format_d_examples)
  note main = srt_rounds_ass_truncates [OF nonneg, of 457 exact 0 45]
  from main have "format_timestamp exact (1254567/10000) = ''00:02:05,457''"
    by (simp add: exact_def fields format_d_examples)
  moreover from main have "format_ass_timestamp exact (1254567/10000) = ''0:02:05.45''"
    by (simp add: exact_def fields format_d_examples)
  moreover from main fl have "format_timestamp exact (exact (1254567/10000)) = ''00:02:05,457''"
    "format_ass_timestamp exact (exact (1254567/10000)) = ''0:02:05.45''"
    by blast+
  moreover have "format_timestamp exact (1/16) = ''00:00:00,062''"
    using srt_rounds_ass_truncates [of "1/16" 0 exact 62 0]
    by (simp add: exact_def format_d_def zfill_def digits.simps)
  ultimately show ?thesis using nonneg by blast
qed

text \<open>
  C9. The float nearest to 0.9996 is non-negative and is formatted as \<open>00:00:00,1000\<close>
  by the SRT formatter: the rounded millisecond component is 1000, printed with four
  digits, and the seconds field stays \<open>00\<close>.
\<close>

theorem format_timestamp_millis_1000:
  fixes fl :: "real \<Rightarrow> real"
  assumes fl: "\<forall>x. 1/4 \<le> \<bar>x\<bar> \<and> \<bar>x\<bar> \<le> 1024 \<longrightarrow> \<bar>fl x - x\<bar> \<le> \<bar>x\<bar> / 2^53"
  shows "0 \<le> fl (9996/10000) \<and> format_timestamp fl (fl (9996/10000)) = ''00:00:00,1000''"
proof -
  define a where "a = fl (9996/10000)"
  define d where "d = fl a"
  define m where "m = fl (d * 1000)"
  have a: "\<bar>a - 9996/10000\<bar> \<le> 1 / 1000000000"
    unfolding a_def by (rule fl_close [OF fl]) simp_all
  have a1: "0 \<le> a" and a2: "a < 1" using a by linarith+
  have ti: "py_int a = 0" using a1 a2 py_int_between [of 0 a] by simp
  have d0: "1/4 \<le> a" "a \<le> 1024" using a by linarith+
  have d: "\<bar>d - a\<bar> \<le> 1 / 1000000000"
    unfolding d_def by (rule fl_close [OF fl d0])
  have m0: "1/4 \<le> d * 1000" "d * 1000 \<le> 1024" using a d by linarith+
  have m: "\<bar>m - d * 1000\<bar> \<le> 1 / 1000000000"
    unfolding m_def by (rule fl_close [OF fl m0])
  have "1000 - 1/2 < m" "m < 1000 + 1/2" using a d m by linarith+
  then have millis: "py_round m = 1000" using py_round_near [of 1000 m] by simp
  have "format_timestamp fl a = ''00:00:00,1000''"
    using ti millis
    by (simp add: format_timestamp_def Let_def d_def [symmetric] m_def [symmetric]
        format_d_examples)
  with a1 show ?thesis by (simp add: a_def)
qed

theorem format_timestamp_millis_1000_witness:
  "(0::real) \<le> 9996/10000 \<and> format_timestamp exact (9996/10000) = ''00:00:00,1000''"
  using format_timestamp_millis_1000 [of exact] by (simp add: exact_def)

section \<open>Language codes\<close>

text \<open>
  Both functions look up the lower-cased, trimmed identifier; when it is not a key of
  the table, they return that lower-cased, trimmed identifier.
\<close>

lemma normalize_unmapped_lowered:
  "(map_of google_mapping (strip (lower ucd_lower lang)) = None
      \<longrightarrow> normalize_language_code_for_google ucd_lower lang = strip (lower ucd_lower lang))
   \<and> (map_of api_mapping (strip (lower ucd_lower lang)) = None
      \<longrightarrow> normalize_language_code_for_api ucd_lower lang = strip (lower ucd_lower lang))"
  by (simp add: normalize_language_code_for_google_def normalize_language_code_for_api_def
      dict_get_def Let_def)

lemma lower_XX: "strip (lower ucd_lower (ascii ''XX'')) = ascii ''xx''"
  by (simp add: strip_def lower_def lower_cp_def ascii_def isspace_def)

lemma google_XX: "map_of google_mapping (ascii ''XX'') = None" "map_of google_mapping (ascii ''xx'') = None"
  by (simp_all add: google_mapping_def ascii_def)

lemma api_XX: "map_of api_mapping (ascii ''XX'') = None" "map_of api_mapping (ascii ''xx'') = None"
  by (simp_all add: api_mapping_def ascii_def)

text \<open>
  C8. An identifier that is in neither table should come back unchanged (the docstrings
  say that the original input is returned). The identifier \<open>XX\<close> is in neither table,
  and neither is its lower-case form; both functions return \<open>xx\<close>, not the identifier
  as it was given, whatever the case table is.
\<close>

theorem normalize_unmapped_changed:
  "map_of google_mapping (ascii ''XX'') = None \<and> map_of api_mapping (ascii ''XX'') = None
   \<and> normalize_language_code_for_google ucd_lower (ascii ''XX'') \<noteq> ascii ''XX''
   \<and> normalize_language_code_for_api ucd_lower (ascii ''XX'') \<noteq> ascii ''XX''"
  by (simp add: normalize_language_code_for_google_def normalize_language_code_for_api_def
      dict_get_def Let_def lower_XX google_XX api_XX) (simp add: ascii_def)

section \<open>The merge stage\<close>

subsection \<open>The verdict\<close>

lemma should_merge_raised:
  "llm k (MergePrompt seg1 seg2) = Raised \<Longrightarrow> \<not> should_merge ucd_lower llm k seg1 seg2"
  by (simp add: should_merge_def)

lemma should_merge_answer:
  "llm k (MergePrompt seg1 seg2) = Returned answer \<Longrightarrow> answer \<noteq> [] \<Longrightarrow>
   should_merge ucd_lower llm k seg1 seg2
     \<longleftrightarrow> \<not> (sublist (ascii ''not'') (lower ucd_lower answer) \<or> sublist [0x4E0D] answer)"
  by (simp add: should_merge_def)

lemma strip_examples:
  "strip (ascii ''hello'') = ascii ''hello''" "strip (ascii ''world'') = ascii ''world''"
  "strip (ascii '' a'') = ascii ''a''" "strip (ascii ''b '') = ascii ''b''"
  "strip [] = []"
  by (simp_all add: strip_def ascii_def isspace_def)

text \<open>
  C1. An absent response should count as do-not-merge, as an exception does. When
  \<open>chat_llm\<close> returns the empty string, its value after a failure, \<open>should_merge\<close> is
  \<open>True\<close>: the two segments \<open>hello\<close> (0 to 2) and \<open>world\<close> (2 to 3) are merged.
\<close>

theorem should_merge_empty_response:
  "should_merge ucd_lower (llm_always (Returned [])) 0 seg_hello seg_world
   \<and> llm_merge_segments ucd_lower exact (llm_always (Returned [])) [seg_hello, seg_world]
     = [\<lparr>seg_start = 0, seg_end = 3, seg_text = ascii ''hello world'', seg_speaker = None\<rparr>]"
  by (simp add: should_merge_def llm_merge_segments_def merge_loop.simps merge_step_def
      merged_seg_def pop_def blank_def strip_examples Let_def llm_always_def exact_def
      seg_hello_def seg_world_def)
    (simp add: ascii_def)

subsection \<open>The merge itself\<close>

lemma pop_update:
  "Suc i < length xs \<Longrightarrow> pop (xs[i := v]) (Suc i) = take i xs @ v # drop (Suc (Suc i)) xs"
  by (simp add: pop_def take_Suc_conv_app_nth)

lemma merged_seg_fields:
  "merged_seg seg1 seg2 =
     \<lparr>seg_start = seg_start seg1, seg_end = seg_end seg2,
      seg_text = strip (seg_text seg1) @ ascii '' '' @ strip (seg_text seg2),
      seg_speaker = seg_speaker seg1\<rparr>"
  by (simp add: merged_seg_def)

text \<open>
  C4, as the code has it. When the pair at the cursor is examined and the verdict is
  positive, the segment at the cursor is replaced by the merged segment, whose text is
  the two trimmed texts joined by one space, the next segment is removed, and the cursor
  stays where it is.
\<close>

theorem merge_step_merges:
  assumes "i + 1 < length segments"
    and "\<not> blank (segments ! i)" and "\<not> blank (segments ! (i + 1))"
    and "\<not> fl (seg_end (segments ! (i + 1)) - seg_start (segments ! i)) > 4"
    and "should_merge ucd_lower llm k (segments ! i) (segments ! (i + 1))"
  shows "merge_step ucd_lower fl llm (segments, i, k) =
     (take i segments
        @ [\<lparr>seg_start = seg_start (segments ! i), seg_end = seg_end (segments ! (i + 1)),
            seg_text = strip (seg_text (segments ! i)) @ ascii '' ''
                         @ strip (seg_text (segments ! (i + 1))),
            seg_speaker = seg_speaker (segments ! i)\<rparr>]
        @ drop (i + 2) segments,
      i, k + 1)"
  using assms by (simp add: merge_step_def Let_def pop_update merged_seg_fields)

lemma should_merge_Merge: "should_merge ucd_lower (llm_always (Returned (ascii ''Merge''))) k seg1 seg2"
  by (simp add: should_merge_def llm_always_def ascii_def lower_def lower_cp_def
      sublist_code(3))

lemma blank_examples:
  "\<not> blank seg_hello" "\<not> blank seg_world" "blank seg_silence" "\<not> blank seg_a" "\<not> blank seg_b"
  by (simp_all add: blank_def strip_examples seg_hello_def seg_world_def seg_silence_def
      seg_a_def seg_b_def) (simp_all add: ascii_def)

theorem merge_step_merges_witness:
  "merge_step no_table exact (llm_always (Returned (ascii ''Merge''))) ([seg_hello, seg_world, seg_silence], 0, 0)
     = ([\<lparr>seg_start = 0, seg_end = 3, seg_text = ascii ''hello world'', seg_speaker = None\<rparr>,
         seg_silence], 0, 1)"
  using merge_step_merges [of 0 "[seg_hello, seg_world, seg_silence]" exact no_table
      "llm_always (Returned (ascii ''Merge''))" 0]
  by (simp add: blank_examples should_merge_Merge)
    (simp add: exact_def seg_hello_def seg_world_def strip_examples, simp add: ascii_def)

text \<open>
  The texts \<open>" a"\<close> and \<open>"b "\<close> are merged into \<open>"a b"\<close>, which is not the first text, a
  space and the second text.
\<close>

theorem merge_step_text_trimmed:
  "should_merge no_table (llm_always (Returned (ascii ''Merge''))) 0 seg_a seg_b
   \<and> merge_step no_table exact (llm_always (Returned (ascii ''Merge''))) ([seg_a, seg_b], 0, 0)
     = ([\<lparr>seg_start = 0, seg_end = 2, seg_text = ascii ''a b'', seg_speaker = None\<rparr>], 0, 1)
   \<and> ascii ''a b'' \<noteq> seg_text seg_a @ ascii '' '' @ seg_text seg_b"
proof -
  have "merge_step no_table exact (llm_always (Returned (ascii ''Merge''))) ([seg_a, seg_b], 0, 0)
     = ([\<lparr>seg_start = 0, seg_end = 2, seg_text = ascii ''a b'', seg_speaker = None\<rparr>], 0, 1)"
    by (simp add: merge_step_def Let_def blank_examples should_merge_Merge pop_def merged_seg_def)
      (simp add: exact_def seg_a_def seg_b_def strip_examples, simp add: ascii_def)
  moreover have "ascii ''a b'' \<noteq> seg_text seg_a @ ascii '' '' @ seg_text seg_b"
    by (simp add: seg_a_def seg_b_def ascii_def)
  ultimately show ?thesis by (simp add: should_merge_Merge)
qed

section \<open>The translation stage\<close>

subsection \<open>Calls made for one segment\<close>

lemma sem_translate_loop_calls:
  "\<exists>n. tr_calls (sem_translate_loop translate_func t attempt calls sleeps)
         = calls @ replicate n t
       \<and> (attempt < max_attempts \<longrightarrow> 1 \<le> n) \<and> n \<le> max_attempts - attempt"
proof (induction translate_func t attempt calls sleeps rule: sem_translate_loop.induct)
  case (1 translate_func t attempt calls sleeps)
  show ?case
  proof (cases "attempt < max_attempts")
    case False
    then show ?thesis
      by (subst sem_translate_loop.simps) (simp add: exI [of _ 0])
  next
    case True
    show ?thesis
    proof (cases "translate_func attempt t")
      case (AsyncReturns r)
      with True show ?thesis
        by (subst sem_translate_loop.simps) (auto intro!: exI [of _ 1])
    next
      case AsyncRaises
      from "1.IH" [OF True AsyncRaises refl]
      obtain n where n: "tr_calls (sem_translate_loop translate_func t (attempt + 1)
            (calls @ [t]) (sleeps @ [delay * 2 ^ (attempt + 1 - 1)]))
          = (calls @ [t]) @ replicate n t" "n \<le> max_attempts - (attempt + 1)"
        by auto
      have "tr_calls (sem_translate_loop translate_func t attempt calls sleeps)
          = calls @ replicate (Suc n) t"
        using True AsyncRaises n(1) by (subst sem_translate_loop.simps) (simp add: Let_def)
      moreover have "Suc n \<le> max_attempts - attempt" using n(2) True by simp
      ultimately show ?thesis by (intro exI [of _ "Suc n"]) simp
    qed
  qed
qed

lemma sync_translate_loop_calls:
  "\<exists>n. tr_calls (sync_translate_loop translate_func original attempts calls sleeps)
         = calls @ replicate n original
       \<and> (attempts < max_attempts \<longrightarrow> 1 \<le> n) \<and> n \<le> max_attempts - attempts"
proof (induction translate_func original attempts calls sleeps rule: sync_translate_loop.induct)
  case (1 translate_func original attempts calls sleeps)
  show ?case
  proof (cases "attempts < max_attempts")
    case False
    then show ?thesis
      by (subst sync_translate_loop.simps) (simp add: exI [of _ 0])
  next
    case True
    let ?next = "sync_translate_loop translate_func original (attempts + 1) (calls @ [original])
        (if attempts + 1 < max_attempts then sleeps @ [1] else sleeps)"
    have returns: "\<exists>n. calls @ [original] = calls @ replicate n original
        \<and> (attempts < max_attempts \<longrightarrow> 1 \<le> n) \<and> n \<le> max_attempts - attempts"
      using True by (intro exI [of _ 1]) simp
    have fails: ?thesis
      if step: "sync_translate_loop translate_func original attempts calls sleeps = ?next"
        and ih: "\<exists>n. tr_calls ?next = (calls @ [original]) @ replicate n original
          \<and> (attempts + 1 < max_attempts \<longrightarrow> 1 \<le> n) \<and> n \<le> max_attempts - (attempts + 1)"
    proof -
      from ih obtain n where n: "tr_calls ?next = (calls @ [original]) @ replicate n original"
        "n \<le> max_attempts - (attempts + 1)" by auto
      have "tr_calls (sync_translate_loop translate_func original attempts calls sleeps)
          = calls @ replicate (Suc n) original"
        using step n(1) by simp
      moreover have "Suc n \<le> max_attempts - attempts" using n(2) True by simp
      ultimately show ?thesis by (intro exI [of _ "Suc n"]) simp
    qed
    show ?thesis
    proof (cases "translate_func attempts original")
      case SyncRaises
      have "sync_translate_loop translate_func original attempts calls sleeps = ?next"
        using True SyncRaises by (subst sync_translate_loop.simps) (simp add: Let_def)
      then show ?thesis using "1.IH"(1) [OF True SyncRaises refl] by (rule fails)
    next
      case (SyncStr r)
      with True returns show ?thesis
        by (subst sync_translate_loop.simps) simp
    next
      case (SyncBytes b)
      show ?thesis
      proof (cases b)
        case None
        have "sync_translate_loop translate_func original attempts calls sleeps = ?next"
          using True SyncBytes None by (subst sync_translate_loop.simps) (simp add: Let_def)
        then show ?thesis using "1.IH"(2) [OF True SyncBytes None refl] by (rule fails)
      next
        case (Some r)
        with True SyncBytes returns show ?thesis
          by (subst sync_translate_loop.simps) simp
      qed
    qed
  qed
qed

lemma basic_translate_traces_nth:
  "i < length segments \<Longrightarrow>
   basic_translate_traces translate_func segments ! i =
     (case translate_func of
        AsyncFn f \<Rightarrow> sem_translate (f i) (seg_text (segments ! i))
      | SyncFn f \<Rightarrow> sync_translate (f i) (seg_text (segments ! i)))"
  by (cases translate_func) (simp_all add: basic_translate_traces_def)

lemma length_basic_translate_traces:
  "length (basic_translate_traces translate_func segments) = length segments"
  by (cases translate_func) (simp_all add: basic_translate_traces_def)

lemma basic_translate_traces_calls:
  assumes "i < length segments"
  shows "\<exists>n. 1 \<le> n \<and> n \<le> max_attempts
           \<and> tr_calls (basic_translate_traces translate_func segments ! i)
               = replicate n (seg_text (segments ! i))"
proof (cases translate_func)
  case (AsyncFn f)
  from sem_translate_loop_calls [of "f i" "seg_text (segments ! i)" 0 "[]" "[]"]
  show ?thesis using assms AsyncFn
    by (auto simp: basic_translate_traces_nth sem_translate_def max_attempts_def)
next
  case (SyncFn f)
  from sync_translate_loop_calls [of "f i" "seg_text (segments ! i)" 0 "[]" "[]"]
  show ?thesis using assms SyncFn
    by (auto simp: basic_translate_traces_nth sync_translate_def max_attempts_def)
qed

subsection \<open>Exhausted retries in the asynchronous mode\<close>

lemma sem_translate_raising:
  assumes "\<forall>attempt. translate_func attempt t = AsyncRaises"
  shows "sem_translate translate_func t =
    \<lparr>tr_result = t, tr_calls = replicate 5 t, tr_sleeps = [1, 2, 4, 8, 16]\<rparr>"
  using assms
  by (simp add: sem_translate_def sem_translate_loop.simps max_attempts_def delay_def Let_def
      numeral_eq_Suc)

text \<open>
  C3, as the code has it. In the asynchronous mode, a segment whose \<open>translate_func\<close>
  raises on every call gets exactly 5 calls, each with the segment's text; the sleeps
  after the failures are 1, 2, 4, 8 and 16 seconds, that is \<open>1 * 2 ^ (attempt - 1)\<close> for
  the attempts 1 to 5; the result for the segment is its original text.
\<close>

theorem async_retry_exhaustion:
  assumes "i < length segments"
    and "\<forall>attempt. f i attempt (seg_text (segments ! i)) = AsyncRaises"
  shows "basic_translate_traces (AsyncFn f) segments ! i =
      \<lparr>tr_result = seg_text (segments ! i),
       tr_calls = replicate 5 (seg_text (segments ! i)),
       tr_sleeps = map (\<lambda>attempt. 1 * 2 ^ (attempt - 1)) [1, 2, 3, 4, 5]\<rparr>
    \<and> basic_translate_segments (AsyncFn f) segments ! i = seg_text (segments ! i)"
  using assms
  by (simp add: basic_translate_segments_def length_basic_translate_traces
      basic_translate_traces_nth sem_translate_raising)

theorem async_retry_exhaustion_witness:
  "tr_calls (basic_translate_traces (AsyncFn async_raising) [seg_hello] ! 0)
     = [ascii ''hello'', ascii ''hello'', ascii ''hello'', ascii ''hello'', ascii ''hello'']
   \<and> tr_sleeps (basic_translate_traces (AsyncFn async_raising) [seg_hello] ! 0) = [1, 2, 4, 8, 16]
   \<and> basic_translate_segments (AsyncFn async_raising) [seg_hello] = [ascii ''hello'']"
proof -
  have len: "length (basic_translate_segments (AsyncFn async_raising) [seg_hello]) = 1"
    by (simp add: basic_translate_segments_def length_basic_translate_traces)
  have "basic_translate_segments (AsyncFn async_raising) [seg_hello] ! 0 = ascii ''hello''"
    using async_retry_exhaustion [of 0 "[seg_hello]" async_raising]
    by (simp add: async_raising_def seg_hello_def)
  with len have "basic_translate_segments (AsyncFn async_raising) [seg_hello] = [ascii ''hello'']"
    by (cases "basic_translate_segments (AsyncFn async_raising) [seg_hello]") auto
  then show ?thesis
    using async_retry_exhaustion [of 0 "[seg_hello]" async_raising]
    by (simp add: async_raising_def seg_hello_def numeral_eq_Suc)
qed

text \<open>
  With a translator that raises on every call, the task of the segment \<open>hello\<close> makes 5
  calls, not 10.
\<close>

theorem async_retry_not_ten:
  "length (tr_calls (basic_translate_traces (AsyncFn async_raising) [seg_hello] ! 0)) = 5
   \<and> length (tr_calls (basic_translate_traces (AsyncFn async_raising) [seg_hello] ! 0)) \<noteq> 10"
  by (simp add: basic_translate_traces_nth sem_translate_raising async_raising_def)

section \<open>The optimisation stage\<close>

subsection \<open>One iteration\<close>

lemma optimize_step_returns_at:
  assumes "use_llm \<longrightarrow> (\<forall>p. llm i p \<noteq> Raised)" and "i < length (basic_translations st)"
  shows "\<exists>chosen. optimize_step llm parse_int segments use_llm context_range dest_language i st =
     Inr \<lparr>basic_translations = (basic_translations st)[i := chosen],
          final_segments = final_segments st @
            [\<lparr>seg_start = seg_start (segments ! i), seg_end = seg_end (segments ! i),
              seg_text = chosen,
              seg_speaker = Some (case seg_speaker (segments ! i) of None \<Rightarrow> [] | Some s \<Rightarrow> s)\<rparr>],
          contexts = contexts st @
            [context_text_of (basic_translations st) (length segments) context_range i]\<rparr>"
proof (cases use_llm)
  case False
  with assms(2) show ?thesis
    by (intro exI [of _ "basic_translations st ! i"]) (simp add: optimize_step_def Let_def)
next
  case True
  let ?ctx = "context_text_of (basic_translations st) (length segments) context_range i"
  let ?basic = "basic_translations st ! i"
  from True assms(1) obtain r where
    r: "llm i (OptimizePrompt dest_language (seg_text (segments ! i)) ?ctx ?basic) = Returned r"
    by (meson llm_outcome.exhaust)
  define opt where "opt = (if r \<noteq> [] then r else ?basic)"
  have o: "optimize_translation llm i (seg_text (segments ! i)) ?basic ?ctx dest_language = Inr opt"
    using r by (simp add: optimize_translation_def opt_def)
  show ?thesis
  proof (cases "?basic = opt")
    case same: True
    with True assms(2) o show ?thesis
      by (intro exI [of _ opt]) (simp add: optimize_step_def Let_def)
  next
    case differ: False
    from True assms(1) obtain a where
      a: "llm i (SelectPrompt dest_language ?ctx (seg_text (segments ! i)) ?basic opt) = Returned a"
      by (meson llm_outcome.exhaust)
    then obtain chosen where
      c: "select_best_translation llm parse_int i ?ctx (seg_text (segments ! i)) ?basic opt
            dest_language = Inr chosen"
      by (cases "parse_int (strip a)") (simp_all add: select_best_translation_def)
    with True assms(2) o differ show ?thesis
      by (intro exI [of _ chosen]) (simp add: optimize_step_def Let_def)
  qed
qed

lemma optimize_step_returns:
  assumes "use_llm \<longrightarrow> (\<forall>k p. llm k p \<noteq> Raised)" and "i < length (basic_translations st)"
  shows "\<exists>chosen. optimize_step llm parse_int segments use_llm context_range dest_language i st =
     Inr \<lparr>basic_translations = (basic_translations st)[i := chosen],
          final_segments = final_segments st @
            [\<lparr>seg_start = seg_start (segments ! i), seg_end = seg_end (segments ! i),
              seg_text = chosen,
              seg_speaker = Some (case seg_speaker (segments ! i) of None \<Rightarrow> [] | Some s \<Rightarrow> s)\<rparr>],
          contexts = contexts st @
            [context_text_of (basic_translations st) (length segments) context_range i]\<rparr>"
proof -
  from assms(1) have "use_llm \<longrightarrow> (\<forall>p. llm i p \<noteq> Raised)" by blast
  with assms(2) show ?thesis
    by (rule optimize_step_returns_at [where llm = llm and i = i and st = st, rotated])
qed

subsection \<open>The loop\<close>

text \<open>
  Before iteration \<open>i\<close>, the list \<open>basic_translations\<close> holds the texts chosen so far at
  the indices below \<open>i\<close> and the first-pass translations \<open>bt0\<close> from \<open>i\<close> on, and every
  context computed so far was computed from such a list.
\<close>

lemma optimize_loop_invariant:
  assumes ok: "use_llm \<longrightarrow> (\<forall>k p. llm k p \<noteq> Raised)"
    and len: "length segments \<le> length bt0"
  shows "i \<le> length segments \<Longrightarrow> length (final_segments st) = i \<Longrightarrow> length (contexts st) = i \<Longrightarrow>
     basic_translations st = map seg_text (final_segments st) @ drop i bt0 \<Longrightarrow>
     (\<forall>j<i. contexts st ! j = context_text_of
         (map seg_text (take j (final_segments st)) @ drop j bt0) (length segments) cr j) \<Longrightarrow>
     \<exists>st'. optimize_loop (optimize_step llm parse_int segments use_llm cr dest)
             [i..<length segments] st = Inr st'
        \<and> length (final_segments st') = length segments
        \<and> length (contexts st') = length segments
        \<and> basic_translations st' = map seg_text (final_segments st') @ drop (length segments) bt0
        \<and> (\<forall>j<length segments. contexts st' ! j = context_text_of
              (map seg_text (take j (final_segments st')) @ drop j bt0) (length segments) cr j)"
proof (induction "length segments - i" arbitrary: i st)
  case 0
  then have "i = length segments" by simp
  with 0 show ?case by simp
next
  case (Suc d)
  let ?n = "length segments"
  let ?body = "optimize_step llm parse_int segments use_llm cr dest"
  from Suc.hyps(2) have i: "i < ?n" by simp
  with len have ibt: "i < length bt0" by simp
  have bt: "basic_translations st = map seg_text (final_segments st) @ drop i bt0"
    by (rule Suc.prems(4))
  have lenf: "length (final_segments st) = i" by (rule Suc.prems(2))
  have lenc: "length (contexts st) = i" by (rule Suc.prems(3))
  from bt lenf ibt have "i < length (basic_translations st)" by simp
  from optimize_step_returns [OF ok this, of parse_int segments cr dest]
  obtain chosen st1 where step: "?body i st = Inr st1"
    and st1: "st1 = \<lparr>basic_translations = (basic_translations st)[i := chosen],
          final_segments = final_segments st @
            [\<lparr>seg_start = seg_start (segments ! i), seg_end = seg_end (segments ! i),
              seg_text = chosen,
              seg_speaker = Some (case seg_speaker (segments ! i) of None \<Rightarrow> [] | Some s \<Rightarrow> s)\<rparr>],
          contexts = contexts st @
            [context_text_of (basic_translations st) ?n cr i]\<rparr>"
    by blast
  have f1: "length (final_segments st1) = Suc i" using st1 lenf by simp
  have c1: "length (contexts st1) = Suc i" using st1 lenc by simp
  have "drop i bt0 = bt0 ! i # drop (Suc i) bt0" using ibt by (simp add: Cons_nth_drop_Suc)
  then have "(basic_translations st)[i := chosen]
      = map seg_text (final_segments st) @ chosen # drop (Suc i) bt0"
    using bt lenf by (simp add: list_update_append)
  then have b1: "basic_translations st1 = map seg_text (final_segments st1) @ drop (Suc i) bt0"
    using st1 by simp
  have ctx1: "\<forall>j<Suc i. contexts st1 ! j = context_text_of
         (map seg_text (take j (final_segments st1)) @ drop j bt0) ?n cr j"
  proof (intro allI impI)
    fix j assume j: "j < Suc i"
    show "contexts st1 ! j = context_text_of
         (map seg_text (take j (final_segments st1)) @ drop j bt0) ?n cr j"
    proof (cases "j < i")
      case True
      with Suc.prems(5) have "contexts st ! j = context_text_of
         (map seg_text (take j (final_segments st)) @ drop j bt0) ?n cr j" by blast
      with True st1 lenf lenc show ?thesis by (simp add: nth_append)
    next
      case False
      with j have "j = i" by simp
      with st1 lenf lenc bt show ?thesis by (simp add: nth_append)
    qed
  qed
  from Suc.hyps(2) have d: "d = ?n - Suc i" by simp
  from i have "Suc i \<le> ?n" by simp
  from Suc.hyps(1) [OF d this f1 c1 b1 ctx1]
  obtain st' where loop: "optimize_loop ?body [Suc i..<?n] st1 = Inr st'"
    and res: "length (final_segments st') = ?n" "length (contexts st') = ?n"
      "basic_translations st' = map seg_text (final_segments st') @ drop ?n bt0"
      "\<forall>j<?n. contexts st' ! j = context_text_of
              (map seg_text (take j (final_segments st')) @ drop j bt0) ?n cr j"
    by blast
  from i have "[i..<?n] = i # [Suc i..<?n]" by (rule upt_conv_Cons)
  with step loop have "optimize_loop ?body [i..<?n] st = Inr st'" by simp
  with res show ?case by blast
qed

lemma optimize_run_returns:
  assumes ok: "use_llm \<longrightarrow> (\<forall>k p. llm k p \<noteq> Raised)"
    and len: "length segments \<le> length bt0"
  shows "\<exists>st. optimize_run llm parse_int segments bt0 use_llm cr dest = Inr st
        \<and> length (final_segments st) = length segments
        \<and> length (contexts st) = length segments
        \<and> basic_translations st = map seg_text (final_segments st) @ drop (length segments) bt0
        \<and> (\<forall>j<length segments. contexts st ! j = context_text_of
              (map seg_text (take j (final_segments st)) @ drop j bt0) (length segments) cr j)"
  unfolding optimize_run_def
  using optimize_loop_invariant [OF ok len, of 0
      "\<lparr>basic_translations = bt0, final_segments = [], contexts = []\<rparr>" cr parse_int dest]
  by simp

subsection \<open>The context window\<close>

lemma slice_left:
  "i \<le> length xs \<Longrightarrow> slice (map f (take i xs) @ ys) lo i = slice (map f xs) lo i"
  by (simp add: slice_def drop_map take_map drop_take)

lemma slice_right:
  "i \<le> length xs \<Longrightarrow> slice (map f (take i xs) @ drop i ys) (i + 1) hi = slice ys (i + 1) hi"
  by (simp add: slice_def)

lemma context_text_of_window:
  assumes "i \<le> length finals"
  shows "context_text_of (map seg_text (take i finals) @ drop i bt0) n cr i =
     join [0x0A]
       ((if i > 0
         then [[0x524D, 0x6587] @ ascii '': ''
                 @ join [0x0A] (slice (map seg_text finals) (max 0 (i - cr)) i)]
         else [])
        @ (if i + 1 < n
           then [[0x540E, 0x6587] @ ascii '': ''
                   @ join [0x0A] (slice bt0 (i + 1) (min n (i + cr + 1)))]
           else []))"
  unfolding context_text_of_def Let_def
  using slice_left [OF assms, of seg_text "drop i bt0" "max 0 (i - cr)"]
    slice_right [OF assms, of seg_text bt0 "min n (i + cr + 1)"]
  by simp

text \<open>
  C5. With \<open>use_llm\<close> true, when every call of the language model returns and there is a
  basic translation for every segment, the stage returns, and the context computed for
  segment \<open>i\<close> consists of the texts chosen for the segments \<open>max(0, i - context_range)\<close>
  to \<open>i - 1\<close> (the texts of the final segments, which are also what the list
  \<open>basic_translations\<close> holds at the end) and of the first-pass translations of the
  segments \<open>i + 1\<close> to \<open>min(len, i + context_range + 1) - 1\<close>.
\<close>

theorem optimize_context_asymmetry:
  assumes "\<forall>k p. llm k p \<noteq> Raised" and "length segments \<le> length bt0"
  shows "\<exists>st. optimize_run llm parse_int segments bt0 True context_range dest = Inr st
     \<and> take (length segments) (basic_translations st) = map seg_text (final_segments st)
     \<and> (\<forall>i<length segments. contexts st ! i =
          join [0x0A]
            ((if i > 0
              then [[0x524D, 0x6587] @ ascii '': ''
                      @ join [0x0A] (slice (map seg_text (final_segments st))
                                        (max 0 (i - context_range)) i)]
              else [])
             @ (if i + 1 < length segments
                then [[0x540E, 0x6587] @ ascii '': ''
                        @ join [0x0A] (slice bt0 (i + 1)
                                          (min (length segments) (i + context_range + 1)))]
                else [])))"
proof -
  from assms(1) have ok: "True \<longrightarrow> (\<forall>k p. llm k p \<noteq> Raised)" by simp
  from optimize_run_returns [OF ok assms(2), of parse_int context_range dest]
  obtain st where run: "optimize_run llm parse_int segments bt0 True context_range dest = Inr st"
    and lenf: "length (final_segments st) = length segments"
    and bt: "basic_translations st
        = map seg_text (final_segments st) @ drop (length segments) bt0"
    and ctx: "\<forall>j<length segments. contexts st ! j = context_text_of
        (map seg_text (take j (final_segments st)) @ drop j bt0) (length segments) context_range j"
    by blast
  from bt lenf have "take (length segments) (basic_translations st)
      = map seg_text (final_segments st)" by simp
  moreover have "contexts st ! i =
          join [0x0A]
            ((if i > 0
              then [[0x524D, 0x6587] @ ascii '': ''
                      @ join [0x0A] (slice (map seg_text (final_segments st))
                                        (max 0 (i - context_range)) i)]
              else [])
             @ (if i + 1 < length segments
                then [[0x540E, 0x6587] @ ascii '': ''
                        @ join [0x0A] (slice bt0 (i + 1)
                                          (min (length segments) (i + context_range + 1)))]
                else []))" if "i < length segments" for i
  proof -
    from that lenf have "i \<le> length (final_segments st)" by simp
    from context_text_of_window [OF this] ctx that show ?thesis by simp
  qed
  ultimately show ?thesis using run by blast
qed

lemma strip_one: "strip (ascii ''1'') = ascii ''1''"
  by (simp add: strip_def ascii_def isspace_def)

lemma parse_one: "parse_choice (ascii ''1'') = Some 1"
  by (simp add: parse_choice_def ascii_def)

lemma sentinel_differs:
  "ascii ''B0'' \<noteq> ascii ''OPT''" "ascii ''B1'' \<noteq> ascii ''OPT''"
  "ascii ''B2'' \<noteq> ascii ''OPT''" "ascii ''OPT'' \<noteq> []"
  by (simp_all add: ascii_def)

lemma sentinel_step:
  assumes "i < length bts" and "bts ! i \<noteq> ascii ''OPT''"
  shows "optimize_step llm_sentinel parse_choice segments True cr dest i
       \<lparr>basic_translations = bts, final_segments = fs, contexts = cs\<rparr> =
     Inr \<lparr>basic_translations = bts[i := ascii ''OPT''],
          final_segments = fs @
            [\<lparr>seg_start = seg_start (segments ! i), seg_end = seg_end (segments ! i),
              seg_text = ascii ''OPT'',
              seg_speaker = Some (case seg_speaker (segments ! i) of None \<Rightarrow> [] | Some s \<Rightarrow> s)\<rparr>],
          contexts = cs @ [context_text_of bts (length segments) cr i]\<rparr>"
  using assms
  by (simp add: optimize_step_def optimize_translation_def select_best_translation_def
      llm_sentinel_def Let_def strip_one parse_one sentinel_differs)

lemma sentinel_run:
  "optimize_run llm_sentinel parse_choice [seg_hello, seg_world, seg_a]
     [ascii ''B0'', ascii ''B1'', ascii ''B2''] True 10 (ascii ''zh'') =
   Inr \<lparr>basic_translations = [ascii ''OPT'', ascii ''OPT'', ascii ''OPT''],
        final_segments =
          [\<lparr>seg_start = 0, seg_end = 2, seg_text = ascii ''OPT'', seg_speaker = Some []\<rparr>,
           \<lparr>seg_start = 2, seg_end = 3, seg_text = ascii ''OPT'', seg_speaker = Some []\<rparr>,
           \<lparr>seg_start = 0, seg_end = 1, seg_text = ascii ''OPT'', seg_speaker = Some []\<rparr>],
        contexts =
          [context_text_of [ascii ''B0'', ascii ''B1'', ascii ''B2''] 3 10 0,
           context_text_of [ascii ''OPT'', ascii ''B1'', ascii ''B2''] 3 10 1,
           context_text_of [ascii ''OPT'', ascii ''OPT'', ascii ''B2''] 3 10 2]\<rparr>"
  by (simp add: optimize_run_def upt_rec sentinel_step sentinel_differs)
     (simp add: seg_hello_def seg_world_def seg_a_def numeral_3_eq_3 numeral_2_eq_2)

lemma sentinel_context:
  "context_text_of [ascii ''OPT'', ascii ''B1'', ascii ''B2''] 3 10 1
     = [0x524D, 0x6587] @ ascii '': OPT'' @ [0x0A] @ [0x540E, 0x6587] @ ascii '': B2''"
  by (simp add: context_text_of_def slice_def Let_def ascii_def)

theorem optimize_context_asymmetry_witness:
  "length [seg_hello, seg_world, seg_a] \<le> length [ascii ''B0'', ascii ''B1'', ascii ''B2'']
   \<and> llm_sentinel 0 (CorrectionPrompt [] []) \<noteq> Raised
   \<and> (case optimize_run llm_sentinel parse_choice [seg_hello, seg_world, seg_a]
          [ascii ''B0'', ascii ''B1'', ascii ''B2''] True 10 (ascii ''zh'') of
        Inl e \<Rightarrow> False
      | Inr st \<Rightarrow> contexts st ! 1
          = [0x524D, 0x6587] @ ascii '': OPT'' @ [0x0A] @ [0x540E, 0x6587] @ ascii '': B2'')"
proof -
  have raise: "\<forall>k p. llm_sentinel k p \<noteq> Raised"
    by (auto simp: llm_sentinel_def split: prompt.splits)
  have len: "length [seg_hello, seg_world, seg_a]
      \<le> length [ascii ''B0'', ascii ''B1'', ascii ''B2'']" by simp
  from optimize_context_asymmetry [OF raise len, of parse_choice 10 "ascii ''zh''"]
  obtain st where run: "optimize_run llm_sentinel parse_choice [seg_hello, seg_world, seg_a]
          [ascii ''B0'', ascii ''B1'', ascii ''B2''] True 10 (ascii ''zh'') = Inr st"
    and ctx: "contexts st ! 1 =
          join [0x0A]
            ([[0x524D, 0x6587] @ ascii '': ''
                @ join [0x0A] (slice (map seg_text (final_segments st)) (max 0 (1 - 10)) 1)]
             @ [[0x540E, 0x6587] @ ascii '': ''
                  @ join [0x0A] (slice [ascii ''B0'', ascii ''B1'', ascii ''B2''] (1 + 1)
                      (min (length [seg_hello, seg_world, seg_a]) (1 + 10 + 1)))])"
    by fastforce
  from run have "contexts st ! 1
      = context_text_of [ascii ''OPT'', ascii ''B1'', ascii ''B2''] 3 10 1"
    by (auto simp: sentinel_run)
  then have "contexts st ! 1
      = [0x524D, 0x6587] @ ascii '': OPT'' @ [0x0A] @ [0x540E, 0x6587] @ ascii '': B2''"
    by (simp only: sentinel_context)
  with run raise show ?thesis by simp
qed

section \<open>Lengths\<close>

lemma optimize_translations_returns:
  assumes "use_llm \<longrightarrow> (\<forall>k p. llm k p \<noteq> Raised)" and "length segments \<le> length bt0"
  shows "\<exists>fs. optimize_translations_with_context llm parse_int segments bt0 use_llm
             context_range dest = Inr fs
          \<and> length fs = length segments"
proof -
  from optimize_run_returns [OF assms, of parse_int context_range dest]
  obtain st where "optimize_run llm parse_int segments bt0 use_llm context_range dest = Inr st"
    and "length (final_segments st) = length segments"
    by blast
  then show ?thesis by (simp add: optimize_translations_with_context_def)
qed

text \<open>
  C6, as the code has it. Whatever the translator does in either mode (its calls may
  raise in any pattern), the translation stage returns one translation per segment, the
  \<open>i\<close>-th one being the result of the task of segment \<open>i\<close>. Given a basic translation
  for every segment, the optimisation stage returns one final segment per segment
  whenever every call of \<open>chat_llm\<close> returns, whatever it returns (the empty string, its
  value for a failed call, included); without \<open>use_llm\<close> it makes no call.
\<close>

theorem stages_preserve_length:
  assumes "use_llm \<longrightarrow> (\<forall>k p. llm k p \<noteq> Raised)" and "length segments \<le> length bt0"
  shows "length (basic_translate_segments translate_func segments) = length segments
    \<and> (\<forall>i<length segments.
          basic_translate_segments translate_func segments ! i =
            tr_result (case translate_func of
                         AsyncFn f \<Rightarrow> sem_translate (f i) (seg_text (segments ! i))
                       | SyncFn f \<Rightarrow> sync_translate (f i) (seg_text (segments ! i))))
    \<and> (\<exists>fs. optimize_translations_with_context llm parse_int segments
               (basic_translate_segments translate_func segments) use_llm context_range dest
             = Inr fs
           \<and> length fs = length segments)
    \<and> (\<exists>fs. optimize_translations_with_context llm parse_int segments bt0 use_llm
               context_range dest = Inr fs
           \<and> length fs = length segments)"
proof -
  have len: "length (basic_translate_segments translate_func segments) = length segments"
    by (simp add: basic_translate_segments_def length_basic_translate_traces)
  have nth: "\<forall>i<length segments.
          basic_translate_segments translate_func segments ! i =
            tr_result (case translate_func of
                         AsyncFn f \<Rightarrow> sem_translate (f i) (seg_text (segments ! i))
                       | SyncFn f \<Rightarrow> sync_translate (f i) (seg_text (segments ! i)))"
    by (simp add: basic_translate_segments_def length_basic_translate_traces
        basic_translate_traces_nth)
  from len have "length segments \<le> length (basic_translate_segments translate_func segments)"
    by simp
  from optimize_translations_returns [OF assms(1) this]
    optimize_translations_returns [OF assms]
    len nth
  show ?thesis by blast
qed

lemma failing_llm_step:
  assumes "i < length bts"
  shows "optimize_step (llm_always (Returned [])) parse_int segments True cr dest i
       \<lparr>basic_translations = bts, final_segments = fs, contexts = cs\<rparr> =
     Inr \<lparr>basic_translations = bts,
          final_segments = fs @
            [\<lparr>seg_start = seg_start (segments ! i), seg_end = seg_end (segments ! i),
              seg_text = bts ! i,
              seg_speaker = Some (case seg_speaker (segments ! i) of None \<Rightarrow> [] | Some s \<Rightarrow> s)\<rparr>],
          contexts = cs @ [context_text_of bts (length segments) cr i]\<rparr>"
  using assms
  by (simp add: optimize_step_def optimize_translation_def llm_always_def Let_def)

lemma failing_llm_run:
  "optimize_translations_with_context (llm_always (Returned [])) parse_choice
     [seg_hello, seg_world] [ascii ''hello'', ascii ''world''] True 10 (ascii ''zh'') =
   Inr [\<lparr>seg_start = 0, seg_end = 2, seg_text = ascii ''hello'', seg_speaker = Some []\<rparr>,
        \<lparr>seg_start = 2, seg_end = 3, seg_text = ascii ''world'', seg_speaker = Some []\<rparr>]"
  by (simp add: optimize_translations_with_context_def optimize_run_def upt_rec failing_llm_step)
     (simp add: seg_hello_def seg_world_def)

lemma failing_translator_run:
  "basic_translate_segments (AsyncFn async_raising) [seg_hello, seg_world]
     = [ascii ''hello'', ascii ''world'']"
  by (simp add: basic_translate_segments_def basic_translate_traces_def upt_rec
      sem_translate_raising async_raising_def seg_hello_def seg_world_def)

theorem stages_preserve_length_witness:
  "llm_always (Returned []) 0 (CorrectionPrompt [] []) \<noteq> Raised
   \<and> length [seg_hello, seg_world] \<le> length [ascii ''hello'', ascii ''world'']
   \<and> basic_translate_segments (AsyncFn async_raising) [seg_hello, seg_world]
       = [ascii ''hello'', ascii ''world'']
   \<and> optimize_translations_with_context (llm_always (Returned [])) parse_choice
       [seg_hello, seg_world] [ascii ''hello'', ascii ''world''] True 10 (ascii ''zh'') =
     Inr [\<lparr>seg_start = 0, seg_end = 2, seg_text = ascii ''hello'', seg_speaker = Some []\<rparr>,
          \<lparr>seg_start = 2, seg_end = 3, seg_text = ascii ''world'', seg_speaker = Some []\<rparr>]"
proof -
  have ok: "True \<longrightarrow> (\<forall>k p. llm_always (Returned []) k p \<noteq> Raised)"
    by (simp add: llm_always_def)
  have len: "length [seg_hello, seg_world] \<le> length [ascii ''hello'', ascii ''world'']"
    by simp
  from stages_preserve_length [OF ok len, of "AsyncFn async_raising" parse_choice 10 "ascii ''zh''"]
  have "length (basic_translate_segments (AsyncFn async_raising) [seg_hello, seg_world])
      = length [seg_hello, seg_world]"
    by blast
  with ok len show ?thesis by (simp add: failing_llm_run failing_translator_run)
qed

text \<open>
  When \<open>chat_llm\<close> raises, the optimisation stage raises with it and returns no list.
\<close>

theorem optimize_raises_with_llm:
  "optimize_translations_with_context (llm_always Raised) parse_choice
     [seg_hello, seg_world] [ascii ''hello'', ascii ''world''] True 10 (ascii ''zh'')
   = Inl LLMError"
  by (simp add: optimize_translations_with_context_def optimize_run_def upt_rec
      optimize_step_def optimize_translation_def llm_always_def Let_def)

section \<open>Segments with empty text\<close>

subsection \<open>The correction stage\<close>

lemma concat_singletons:
  "concat (map (\<lambda>i. if P i then [g i] else []) xs) = map g (filter P xs)"
  by (induction xs) simp_all

lemma context_texts_filter:
  "context_texts segments lo hi
     = filter (\<lambda>t. strip t \<noteq> []) (map seg_text (slice segments lo hi))"
  by (simp add: context_texts_def blank_def filter_map comp_def)

lemma correct_segment_prompts:
  "snd (correct_segment llm segments context_range i) =
     (if strip (seg_text (segments ! i)) \<noteq> []
      then [CorrectionPrompt (correction_context segments context_range i)
              (seg_text (segments ! i))]
      else [])"
  by (simp add: correct_segment_def blank_def Let_def)

lemma correction_prompts_exact:
  "correction_prompts llm segments context_range =
     map (\<lambda>i. CorrectionPrompt (correction_context segments context_range i)
                (seg_text (segments ! i)))
       (filter (\<lambda>i. strip (seg_text (segments ! i)) \<noteq> []) [0..<length segments])"
  by (simp add: correction_prompts_def llm_correct_trace_def comp_def correct_segment_prompts
      concat_singletons)

lemma correction_context_exact:
  "correction_context segments context_range i =
     (if filter (\<lambda>t. strip t \<noteq> [])
           (map seg_text (slice segments (i - context_range) i)) \<noteq> []
      then ascii ''Previous context: ''
           @ join (ascii '' '')
               (filter (\<lambda>t. strip t \<noteq> [])
                  (map seg_text (slice segments (i - context_range) i)))
           @ [0x0A]
      else [])
     @ (if filter (\<lambda>t. strip t \<noteq> [])
             (map seg_text (slice segments (i + 1)
                (min (length segments) (i + context_range + 1)))) \<noteq> []
        then ascii ''Next context: ''
             @ join (ascii '' '')
                 (filter (\<lambda>t. strip t \<noteq> [])
                    (map seg_text (slice segments (i + 1)
                       (min (length segments) (i + context_range + 1)))))
             @ [0x0A]
        else [])"
  by (simp add: correction_context_def Let_def context_texts_filter)

subsection \<open>The merge stage\<close>

lemma merge_step_blank:
  "blank (segments ! i) \<or> blank (segments ! (i + 1))
   \<Longrightarrow> merge_step ucd_lower fl llm (segments, i, k) = (segments, i + 1, k)"
  by (auto simp: merge_step_def Let_def)

subsection \<open>The optimisation stage\<close>

lemma optimize_loop_append:
  "optimize_loop body (xs @ ys) st =
     (case optimize_loop body xs st of Inl e \<Rightarrow> Inl e | Inr st' \<Rightarrow> optimize_loop body ys st')"
  by (induction xs arbitrary: st) (auto split: sum.splits)

lemma optimize_loop_prefix:
  assumes ok: "\<forall>j<m. \<forall>p. llm j p \<noteq> Raised"
  shows "i \<le> m \<Longrightarrow> m \<le> length (basic_translations st) \<Longrightarrow>
     \<exists>st'. optimize_loop (optimize_step llm parse_int segments use_llm cr dest) [i..<m] st = Inr st'
        \<and> length (basic_translations st') = length (basic_translations st)"
proof (induction "m - i" arbitrary: i st)
  case 0
  then show ?case by simp
next
  case (Suc d)
  let ?body = "optimize_step llm parse_int segments use_llm cr dest"
  from Suc.hyps(2) have i: "i < m" by simp
  with ok have oki: "use_llm \<longrightarrow> (\<forall>p. llm i p \<noteq> Raised)" by blast
  from i Suc.prems(2) have "i < length (basic_translations st)" by simp
  with oki obtain chosen st1 where step: "?body i st = Inr st1"
    and len1: "length (basic_translations st1) = length (basic_translations st)"
    using optimize_step_returns_at [where llm = llm and i = i and st = st and use_llm = use_llm
        and parse_int = parse_int and segments = segments and context_range = cr
        and dest_language = dest]
    by fastforce
  from Suc.hyps(2) have d: "d = m - Suc i" by simp
  from i have "Suc i \<le> m" by simp
  moreover from Suc.prems(2) len1 have "m \<le> length (basic_translations st1)" by simp
  ultimately obtain st' where "optimize_loop ?body [Suc i..<m] st1 = Inr st'"
    and "length (basic_translations st') = length (basic_translations st1)"
    using Suc.hyps(1) [OF d] by blast
  moreover from i have "[i..<m] = i # [Suc i..<m]" by (rule upt_conv_Cons)
  ultimately show ?case using step len1 by simp
qed

lemma optimize_step_raises:
  assumes "i < length (basic_translations st)"
    and "llm i (OptimizePrompt dest (seg_text (segments ! i))
           (context_text_of (basic_translations st) (length segments) cr i)
           (basic_translations st ! i)) = Raised"
  shows "optimize_step llm parse_int segments True cr dest i st = Inl LLMError"
  using assms by (simp add: optimize_step_def optimize_translation_def Let_def)

lemma optimize_raises_at:
  assumes i: "i < length segments" and len: "length segments \<le> length bt0"
    and before: "\<forall>j<i. \<forall>p. llm j p \<noteq> Raised"
    and at: "\<forall>c b. llm i (OptimizePrompt dest (seg_text (segments ! i)) c b) = Raised"
  shows "optimize_translations_with_context llm parse_int segments bt0 True cr dest
     = Inl LLMError"
proof -
  let ?body = "optimize_step llm parse_int segments True cr dest"
  let ?st0 = "\<lparr>basic_translations = bt0, final_segments = [], contexts = []\<rparr>"
  from i len have "i \<le> length (basic_translations ?st0)" by simp
  from optimize_loop_prefix [OF before _ this, of 0 parse_int segments True cr dest]
  obtain st' where pre: "optimize_loop ?body [0..<i] ?st0 = Inr st'"
    and len': "length (basic_translations st') = length bt0"
    by auto
  from i len len' have "i < length (basic_translations st')" by simp
  from optimize_step_raises [OF this] at
  have step: "?body i st' = Inl LLMError" by blast
  from i have "[0..<length segments] = [0..<i] @ (i # [Suc i..<length segments])"
    by (metis le0 upt_add_eq_append upt_conv_Cons le_add_diff_inverse less_imp_le_nat)
  then have "optimize_loop ?body [0..<length segments] ?st0 = Inl LLMError"
    using pre step by (simp add: optimize_loop_append)
  then show ?thesis
    by (simp add: optimize_translations_with_context_def optimize_run_def)
qed

subsection \<open>What each stage passes on\<close>

text \<open>
  C2, as the code has it. The correction stage asks the language model about the
  segments whose trimmed text is not empty, once each and about no other, and the context
  it sends is made of the texts of the neighbouring segments whose trimmed text is not
  empty, and of no other text. The merge stage makes no query for a pair with a blank
  text: the step only advances the cursor, and the count of queries stays. The
  translation stage and the optimisation stage have no such filter. In both modes the
  translation stage calls \<open>translate_func\<close> on the text of every segment, empty or not,
  at least once and at most \<open>max_attempts\<close> times. With \<open>use_llm\<close> the optimisation stage
  asks the language model to optimise the text of every segment, empty or not: a model
  that returns on the calls for the segments before \<open>i\<close> and raises when call \<open>i\<close> is
  asked to optimise the text of segment \<open>i\<close> makes the stage raise.
\<close>

theorem empty_text_calls:
  "correction_prompts llm segments context_range =
     map (\<lambda>i. CorrectionPrompt (correction_context segments context_range i)
                (seg_text (segments ! i)))
       (filter (\<lambda>i. strip (seg_text (segments ! i)) \<noteq> []) [0..<length segments])
   \<and> correction_context segments context_range i =
       (if filter (\<lambda>t. strip t \<noteq> [])
             (map seg_text (slice segments (i - context_range) i)) \<noteq> []
        then ascii ''Previous context: ''
             @ join (ascii '' '')
                 (filter (\<lambda>t. strip t \<noteq> [])
                    (map seg_text (slice segments (i - context_range) i)))
             @ [0x0A]
        else [])
       @ (if filter (\<lambda>t. strip t \<noteq> [])
               (map seg_text (slice segments (i + 1)
                  (min (length segments) (i + context_range + 1)))) \<noteq> []
          then ascii ''Next context: ''
               @ join (ascii '' '')
                   (filter (\<lambda>t. strip t \<noteq> [])
                      (map seg_text (slice segments (i + 1)
                         (min (length segments) (i + context_range + 1)))))
               @ [0x0A]
          else [])
   \<and> (blank (segments ! j) \<or> blank (segments ! (j + 1))
        \<longrightarrow> merge_step ucd_lower fl llm (segments, j, k) = (segments, j + 1, k))
   \<and> (\<forall>i < length segments. \<exists>n. 1 \<le> n \<and> n \<le> max_attempts
        \<and> tr_calls (basic_translate_traces translate_func segments ! i)
            = replicate n (seg_text (segments ! i)))
   \<and> (i < length segments \<and> length segments \<le> length basics
        \<and> (\<forall>j<i. \<forall>p. llm j p \<noteq> Raised)
        \<and> (\<forall>c b. llm i (OptimizePrompt dest (seg_text (segments ! i)) c b) = Raised)
        \<longrightarrow> optimize_translations_with_context llm parse_int segments basics True
              context_range dest = Inl LLMError)"
proof (intro conjI)
  show "correction_prompts llm segments context_range =
     map (\<lambda>i. CorrectionPrompt (correction_context segments context_range i)
                (seg_text (segments ! i)))
       (filter (\<lambda>i. strip (seg_text (segments ! i)) \<noteq> []) [0..<length segments])"
    by (rule correction_prompts_exact)
  show "blank (segments ! j) \<or> blank (segments ! (j + 1))
        \<longrightarrow> merge_step ucd_lower fl llm (segments, j, k) = (segments, j + 1, k)"
    using merge_step_blank by blast
  show "\<forall>i < length segments. \<exists>n. 1 \<le> n \<and> n \<le> max_attempts
        \<and> tr_calls (basic_translate_traces translate_func segments ! i)
            = replicate n (seg_text (segments ! i))"
    using basic_translate_traces_calls by blast
  show "i < length segments \<and> length segments \<le> length basics
        \<and> (\<forall>j<i. \<forall>p. llm j p \<noteq> Raised)
        \<and> (\<forall>c b. llm i (OptimizePrompt dest (seg_text (segments ! i)) c b) = Raised)
        \<longrightarrow> optimize_translations_with_context llm parse_int segments basics True
              context_range dest = Inl LLMError"
    using optimize_raises_at by blast
qed (rule correction_context_exact)

lemma sem_translate_echo:
  "sem_translate (async_echo i) t = \<lparr>tr_result = t, tr_calls = [t], tr_sleeps = []\<rparr>"
  by (simp add: sem_translate_def sem_translate_loop.simps max_attempts_def async_echo_def)

lemma sync_translate_echo:
  "sync_translate (sync_echo i) t = \<lparr>tr_result = t, tr_calls = [t], tr_sleeps = []\<rparr>"
  by (simp add: sync_translate_def sync_translate_loop.simps max_attempts_def sync_echo_def)

lemma llm_trap_calls:
  "llm_trap 0 p \<noteq> Raised" "llm_trap 1 (OptimizePrompt dest [] c b) = Raised"
  by (simp_all add: llm_trap_def split: prompt.splits)

theorem empty_text_calls_witness:
  "correction_prompts llm_trap [seg_hello, seg_silence] 10 = [CorrectionPrompt [] (ascii ''hello'')]
   \<and> blank ([seg_hello, seg_silence] ! 1)
   \<and> merge_step no_table exact llm_trap ([seg_hello, seg_silence], 0, 0)
       = ([seg_hello, seg_silence], 1, 0)
   \<and> 1 < length [seg_hello, seg_silence]
   \<and> seg_text ([seg_hello, seg_silence] ! 1) = []
   \<and> tr_calls (basic_translate_traces (AsyncFn async_echo) [seg_hello, seg_silence] ! 1) = [[]]
   \<and> llm_trap 0 (OptimizePrompt (ascii ''zh'') [] [] []) \<noteq> Raised
   \<and> llm_trap 1 (OptimizePrompt (ascii ''zh'') [] [] []) = Raised
   \<and> optimize_translations_with_context llm_trap parse_choice [seg_hello, seg_silence]
       [ascii ''hello'', []] True 10 (ascii ''zh'') = Inl LLMError"
proof -
  let ?segs = "[seg_hello, seg_silence]"
  note inst = empty_text_calls [where llm = llm_trap and segments = ?segs
      and context_range = 10 and i = 1 and j = 0 and k = 0 and ucd_lower = no_table
      and fl = exact and translate_func = "AsyncFn async_echo"
      and basics = "[ascii ''hello'', []]" and dest = "ascii ''zh''" and parse_int = parse_choice]
  have ctx: "correction_context ?segs 10 0 = []"
    by (simp add: correction_context_def context_texts_def slice_def blank_examples Let_def)
  from inst have "correction_prompts llm_trap ?segs 10 =
     map (\<lambda>i. CorrectionPrompt (correction_context ?segs 10 i) (seg_text (?segs ! i)))
       (filter (\<lambda>i. strip (seg_text (?segs ! i)) \<noteq> []) [0..<length ?segs])"
    by blast
  also have "filter (\<lambda>i. strip (seg_text (?segs ! i)) \<noteq> []) [0..<length ?segs] = [0]"
    using blank_examples by (simp add: upt_rec blank_def)
  finally have "correction_prompts llm_trap ?segs 10
      = [CorrectionPrompt [] (seg_text seg_hello)]"
    by (simp add: ctx)
  then have prompts: "correction_prompts llm_trap ?segs 10
      = [CorrectionPrompt [] (ascii ''hello'')]"
    by (simp add: seg_hello_def)
  have silent: "blank (?segs ! 1)" by (simp add: blank_examples)
  then have "blank (?segs ! 0) \<or> blank (?segs ! (0 + 1))" by simp
  with inst have "merge_step no_table exact llm_trap (?segs, 0, 0) = (?segs, 0 + 1, 0)"
    by blast
  then have step: "merge_step no_table exact llm_trap (?segs, 0, 0) = (?segs, 1, 0)" by simp
  have len: "1 < length ?segs" by simp
  have empty: "seg_text (?segs ! 1) = []" by (simp add: seg_silence_def)
  have calls: "tr_calls (basic_translate_traces (AsyncFn async_echo) ?segs ! 1) = [[]]"
    by (simp add: basic_translate_traces_nth sem_translate_echo seg_silence_def)
  have before: "\<forall>j<1. \<forall>p. llm_trap j p \<noteq> Raised" by (simp add: llm_trap_calls)
  have at: "\<forall>c b. llm_trap 1 (OptimizePrompt (ascii ''zh'') (seg_text (?segs ! 1)) c b) = Raised"
    by (simp add: llm_trap_def seg_silence_def)
  have "length ?segs \<le> length [ascii ''hello'', []]" by simp
  with inst len before at
  have raises: "optimize_translations_with_context llm_trap parse_choice ?segs
       [ascii ''hello'', []] True 10 (ascii ''zh'') = Inl LLMError"
    by blast
  from prompts silent step len empty calls raises llm_trap_calls show ?thesis by blast
qed

text \<open>
  The segment \<open>seg_silence\<close> has the empty text. The translation stage calls
  \<open>translate_func\<close> on it, in the asynchronous and in the synchronous mode, and the
  optimisation stage asks \<open>llm_trap\<close>, which raises only when its call number 1 is
  asked to optimise the empty text, and so raises.
\<close>

theorem empty_text_is_passed_on:
  "seg_text seg_silence = []
   \<and> tr_calls (basic_translate_traces (AsyncFn async_echo) [seg_hello, seg_silence] ! 1) = [[]]
   \<and> tr_calls (basic_translate_traces (SyncFn sync_echo) [seg_hello, seg_silence] ! 1) = [[]]
   \<and> optimize_translations_with_context llm_trap parse_choice [seg_hello, seg_silence]
       [ascii ''hello'', []] True 10 (ascii ''zh'') = Inl LLMError
   \<and> optimize_translations_with_context (llm_always (Returned [])) parse_choice
       [seg_hello, seg_silence] [ascii ''hello'', []] True 10 (ascii ''zh'')
     = Inr [\<lparr>seg_start = 0, seg_end = 2, seg_text = ascii ''hello'', seg_speaker = Some []\<rparr>,
            \<lparr>seg_start = 3, seg_end = 4, seg_text = [], seg_speaker = Some []\<rparr>]"
proof -
  have "optimize_translations_with_context llm_trap parse_choice [seg_hello, seg_silence]
       [ascii ''hello'', []] True 10 (ascii ''zh'') = Inl LLMError"
    by (simp add: optimize_translations_with_context_def optimize_run_def upt_rec
        optimize_step_def optimize_translation_def llm_trap_def Let_def seg_silence_def)
  moreover have "optimize_translations_with_context (llm_always (Returned [])) parse_choice
       [seg_hello, seg_silence] [ascii ''hello'', []] True 10 (ascii ''zh'')
     = Inr [\<lparr>seg_start = 0, seg_end = 2, seg_text = ascii ''hello'', seg_speaker = Some []\<rparr>,
            \<lparr>seg_start = 3, seg_end = 4, seg_text = [], seg_speaker = Some []\<rparr>]"
    by (simp add: optimize_translations_with_context_def optimize_run_def upt_rec
        failing_llm_step)
      (simp add: seg_hello_def seg_silence_def)
  ultimately show ?thesis
    by (simp add: basic_translate_traces_nth sem_translate_echo sync_translate_echo
        seg_silence_def)
qed

end
